theory Spec2Isabelle
  imports Main "HOL-Library.Word"
begin

unbundle bit_operations_syntax

section \<open>Data model of kernel/arch/x86_64/smp.c\<close>

type_synonym u8 = "8 word"
type_synonym u32 = "32 word"
type_synonym u64 = "64 word"

text \<open>
  Modelled from the spec: the per-core descriptor (\<^verbatim>\<open>processor_local_data[i]\<close>) is
  declared in \<^verbatim>\<open>kernel/process.h\<close>, outside this file. These are the fields that smp.c
  reads or writes. The C \<^verbatim>\<open>int\<close> fields are \<^typ>\<open>int\<close>; pointers to tasks and page
  tables are opaque handles.
\<close>

record processor_local =
  cpu_id :: int
  lapic_id :: int
  cpu_manufacturer :: string
  cpu_model :: int
  cpu_family :: int
  cpu_model_name :: "u8 list"
  current_pml :: u64
  kernel_idle_task :: nat
  current_process :: nat

text \<open>The two logging sinks, one constructor per call form used in the file.\<close>

datatype log_line = Printf string | Dprintf string int

text \<open>
  Everything the code does to the outside, in program order: volatile LAPIC accesses, the
  \<^verbatim>\<open>pause\<close> instruction, and the calls to collaborators that live in other files.
\<close>

datatype event =
    MmioWrite u64 u32
  | MmioRead u64 u32
  | Pause
  | SetCoreBase int
  | IdtApInstall
  | FpuInitialize
  | PatInitialize
  | SpawnKidle int
  | SwitchNext
  | MapMmioRegion u64 u64
  | AllocateAFrame
  | FrameClear u64
  | MemcpyPhys nat nat nat
  | MemcpyBootstrap nat nat
  | GdtCopyToTrampoline int nat
  | Valloc u64
  | ShortDelay nat

text \<open>
  The globals of the file, the physical memory as \<^verbatim>\<open>mmu_map_from_physical\<close> shows it
  (one byte per physical address), the log, and the trace of events. \<open>lapic_reads\<close>
  counts the volatile loads done so far: the device answers the n-th load.
\<close>

record kstate =
  phys :: "nat \<Rightarrow> u8"
  processor_local_data :: "int \<Rightarrow> processor_local"
  processor_count :: int
  lapic_final :: u64
  ap_stack_base :: u64
  ap_startup_flag :: int
  ap_current :: int
  klog :: "log_line list"
  trace :: "event list"
  lapic_reads :: nat

text \<open>
  What the file takes from its surroundings: the boot handoff, the command line, the
  struct layouts of \<^verbatim>\<open>acpi.h\<close> (offsets in bytes), \<^verbatim>\<open>cpuid\<close> per core, and the
  answers of the collaborators (allocator, mapper, GDT module, scheduler, the LAPIC
  device, and whether an AP comes up).
\<close>

record env =
  mboot_is_2 :: bool
  mboot2_find_tag :: "u32 \<Rightarrow> u64"
  config_table :: u32
  cmdline :: "string \<rightharpoonup> string"
  rsdp_sizeof :: nat
  rsdp_rsdt_address :: nat
  sdt_length :: nat
  rsdt_pointers :: nat
  madt_lapic_addr :: nat
  madt_entries :: nat
  cpuid :: "int \<Rightarrow> u32 \<Rightarrow> u32 \<times> u32 \<times> u32 \<times> u32"
  mmu_map_mmio_region :: "u64 \<Rightarrow> u64 \<Rightarrow> u64"
  mmu_allocate_a_frame :: u64
  ap_bootstrap :: "u8 list"
  ap_bootstrap_gdtp :: nat
  gdt_pointer :: "int \<Rightarrow> u8 list"
  valloc :: "int \<Rightarrow> u64"
  kernel_stack_size :: u64
  lapic_mmio :: "nat \<Rightarrow> u64 \<Rightarrow> u32"
  ap_ack_spins :: "int \<Rightarrow> nat option"
  spawn_kidle :: "int \<Rightarrow> int \<Rightarrow> nat"
  init_page_region :: u64

text \<open>
  Modelled from the spec: the logging sink (\<^verbatim>\<open>printf\<close>, \<^verbatim>\<open>dprintf\<close>) and the command-line
  accessor (\<^verbatim>\<open>args_present(key)\<close>, \<^verbatim>\<open>args_value(key)\<close>) are defined outside this file. A
  log call appends one line; the command line is a map from the keys present to their
  values.
\<close>

definition emit :: "event \<Rightarrow> kstate \<Rightarrow> kstate" where
  "emit e s = s\<lparr>trace := trace s @ [e]\<rparr>"

definition printf :: "string \<Rightarrow> kstate \<Rightarrow> kstate" where
  "printf msg s = s\<lparr>klog := klog s @ [Printf msg]\<rparr>"

definition dprintf :: "string \<Rightarrow> int \<Rightarrow> kstate \<Rightarrow> kstate" where
  "dprintf fmt n s = s\<lparr>klog := klog s @ [Dprintf fmt n]\<rparr>"

definition args_present :: "env \<Rightarrow> string \<Rightarrow> bool" where
  "args_present e k = (cmdline e k \<noteq> None)"

definition args_value :: "env \<Rightarrow> string \<Rightarrow> string" where
  "args_value e k = (case cmdline e k of Some v \<Rightarrow> v | None \<Rightarrow> [])"

section \<open>LAPIC MMIO gateway\<close>

definition lapic_write :: "u64 \<Rightarrow> u32 \<Rightarrow> kstate \<Rightarrow> kstate" where
  "lapic_write addr v s = emit (MmioWrite (lapic_final s + addr) v) s"

definition lapic_read :: "env \<Rightarrow> u64 \<Rightarrow> kstate \<Rightarrow> u32 \<times> kstate" where
  "lapic_read e addr s =
     (let v = lapic_mmio e (lapic_reads s) (lapic_final s + addr)
      in (v, (emit (MmioRead (lapic_final s + addr) v) s)\<lparr>lapic_reads := Suc (lapic_reads s)\<rparr>))"

text \<open>
  The \<^verbatim>\<open>do { pause } while (lapic_read(0x300) & (1 << 12))\<close> loop. The hardware may
  never clear the bit, so the loop is a partial function: \<open>None\<close> is "spins forever".
\<close>

partial_function (option) ipi_poll :: "env \<Rightarrow> kstate \<Rightarrow> kstate option" where
  "ipi_poll e s =
     (if fst (lapic_read e 0x300 (emit Pause s)) AND push_bit 12 1 \<noteq> 0
      then ipi_poll e (snd (lapic_read e 0x300 (emit Pause s)))
      else Some (snd (lapic_read e 0x300 (emit Pause s))))"

definition lapic_send_ipi :: "env \<Rightarrow> int \<Rightarrow> u32 \<Rightarrow> kstate \<Rightarrow> kstate option" where
  "lapic_send_ipi e i val s =
     ipi_poll e (lapic_write 0x300 val (lapic_write 0x310 (push_bit 24 (word_of_int i)) s))"

section \<open>IPI services\<close>

definition arch_wakeup_others :: "env \<Rightarrow> kstate \<Rightarrow> kstate option" where
  "arch_wakeup_others e s =
     (if lapic_final s = 0 \<or> processor_count s < 2 then Some s
      else lapic_send_ipi e 0 (0x7E OR push_bit 18 3) s)"

definition arch_tick_others :: "env \<Rightarrow> kstate \<Rightarrow> kstate option" where
  "arch_tick_others e s =
     (if lapic_final s = 0 \<or> processor_count s < 2 then Some s
      else lapic_send_ipi e 0 (0x7b OR push_bit 18 3) s)"

definition arch_tlb_shootdown :: "env \<Rightarrow> u64 \<Rightarrow> kstate \<Rightarrow> kstate option" where
  "arch_tlb_shootdown e vaddr s =
     (if lapic_final s = 0 \<or> processor_count s < 2 then Some s
      else lapic_send_ipi e 0 (0x7C OR push_bit 18 3) s)"

section \<open>CPU identification\<close>

definition upd_local :: "int \<Rightarrow> (processor_local \<Rightarrow> processor_local) \<Rightarrow> kstate \<Rightarrow> kstate" where
  "upd_local i f s =
     s\<lparr>processor_local_data := (processor_local_data s)(i := f (processor_local_data s i))\<rparr>"

definition byte_of :: "char \<Rightarrow> u8" where
  "byte_of c = of_char c"

definition le32 :: "u32 \<Rightarrow> u8 list" where
  "le32 w = [ucast w, ucast (drop_bit 8 w), ucast (drop_bit 16 w), ucast (drop_bit 24 w)]"

text \<open>Writing \<open>bs\<close> at the start of a character array keeps the bytes behind it.\<close>

definition write_chars :: "u8 list \<Rightarrow> u8 list \<Rightarrow> u8 list" where
  "write_chars bs buf = bs @ drop (length bs) buf"

text \<open>
  \<^verbatim>\<open>load_processor_info\<close> on the core whose descriptor is \<open>core\<close> (\<^verbatim>\<open>this_core\<close>).
  The four results of \<^verbatim>\<open>cpuid\<close> are (eax, ebx, ecx, edx).
\<close>

definition load_processor_info :: "env \<Rightarrow> int \<Rightarrow> kstate \<Rightarrow> kstate" where
  "load_processor_info e core s0 =
     (let b = fst (snd (cpuid e core 0));
          s1 = upd_local core (\<lambda>p. p\<lparr>cpu_manufacturer := ''Unknown''\<rparr>) s0;
          a1 = fst (cpuid e core 1);
          s2 = (if b = 0x756e6547 then
                  upd_local core (\<lambda>p. p\<lparr>cpu_manufacturer := ''Intel'',
                     cpu_model := uint (drop_bit 4 a1 AND 0x0F),
                     cpu_family := uint (drop_bit 8 a1 AND 0x0F)\<rparr>) s1
                else if b = 0x68747541 then
                  upd_local core (\<lambda>p. p\<lparr>cpu_manufacturer := ''AMD'',
                     cpu_model := uint (drop_bit 4 a1 AND 0x0F),
                     cpu_family := uint (drop_bit 8 a1 AND 0x0F)\<rparr>) s1
                else s1);
          me = cpu_id (processor_local_data s2 core);
          s3 = upd_local me (\<lambda>p. p\<lparr>cpu_model_name :=
                 write_chars (map byte_of ''(unknown)'' @ [0]) (cpu_model_name p)\<rparr>) s2;
          brand = concat (map (\<lambda>leaf. case cpuid e core leaf of (a, b, c, d) \<Rightarrow>
                    le32 a @ le32 b @ le32 c @ le32 d) [0x80000002, 0x80000003, 0x80000004])
      in if 0x80000004 \<le> fst (cpuid e core 0x80000000) then
           upd_local me (\<lambda>p. p\<lparr>cpu_model_name := write_chars brand (cpu_model_name p)\<rparr>) s3
         else s3)"

section \<open>C entry point of an application processor\<close>

text \<open>
  \<^verbatim>\<open>ap_main\<close>, up to its last call: \<^verbatim>\<open>switch_next\<close> does not return, so the result is
  the state in which it is entered.
\<close>

definition ap_main :: "env \<Rightarrow> kstate \<Rightarrow> kstate" where
  "ap_main e s0 =
     (let core = ap_current s0;
          s1 = emit (SetCoreBase core) s0;
          ebx = fst (snd (cpuid e core 1));
          s2 = (if lapic_id (processor_local_data s1 core) \<noteq> uint (drop_bit 24 ebx)
                then printf ''smp: lapic id does not match\<newline>'' s1 else s1);
          s3 = emit PatInitialize (emit FpuInitialize (emit IdtApInstall s2));
          s4 = emit (MmioWrite (lapic_final s3 + 0x0F0) 0x127) s3;
          s5 = upd_local core (\<lambda>p. p\<lparr>current_pml := init_page_region e\<rparr>) s4;
          s6 = upd_local core (\<lambda>p. p\<lparr>kernel_idle_task := spawn_kidle e core 0\<rparr>)
                 (emit (SpawnKidle 0) s5);
          s7 = upd_local core (\<lambda>p. p\<lparr>current_process := kernel_idle_task p\<rparr>) s6;
          s8 = load_processor_info e core s7;
          s9 = s8\<lparr>ap_startup_flag := 1\<rparr>
      in emit SwitchNext s9)"

section \<open>Firmware table locator\<close>

text \<open>
  \<^verbatim>\<open>xtoi\<close>: every character multiplies the accumulator by 16, hexadecimal digits add
  their value, other characters add nothing. The accumulator is a \<^verbatim>\<open>uintptr_t\<close>.
\<close>

fun xtoi_loop :: "u64 \<Rightarrow> string \<Rightarrow> u64" where
  "xtoi_loop out [] = out"
| "xtoi_loop out (c # cs) =
     xtoi_loop
       (if of_char CHR ''0'' \<le> (of_char c :: nat) \<and> (of_char c :: nat) \<le> of_char CHR ''9''
          then out * 0x10 + (of_char c - of_char CHR ''0'')
        else if of_char CHR ''a'' \<le> (of_char c :: nat) \<and> (of_char c :: nat) \<le> of_char CHR ''f''
          then out * 0x10 + (of_char c - of_char CHR ''a'' + 0xa)
        else if of_char CHR ''A'' \<le> (of_char c :: nat) \<and> (of_char c :: nat) \<le> of_char CHR ''F''
          then out * 0x10 + (of_char c - of_char CHR ''A'' + 0xa)
        else out * 0x10) cs"

definition xtoi :: "string \<Rightarrow> u64" where
  "xtoi c = xtoi_loop 0 (if take 2 c = ''0x'' then drop 2 c else c)"

text \<open>
  Lines 212 to 233: the scan window \<open>(scan, scan_top)\<close>. The arithmetic is that of
  \<^verbatim>\<open>uintptr_t\<close> and wraps.
\<close>

definition select_scan :: "env \<Rightarrow> u64 \<times> u64" where
  "select_scan e =
     (if mboot_is_2 e then
        (let scan = (if mboot2_find_tag e 14 = 0 then mboot2_find_tag e 15
                     else mboot2_find_tag e 14) + 8
         in (scan, scan + 0x100000))
      else if config_table e \<noteq> 0 then
        (ucast (config_table e), ucast (config_table e) + 0x100000)
      else if args_present e ''acpi'' then
        (xtoi (args_value e ''acpi''), xtoi (args_value e ''acpi'') + 0x100000)
      else (0xE0000, 0x100000))"

text \<open>The seven comparisons of lines 237 to 243.\<close>

definition rsd_ptr_at :: "(nat \<Rightarrow> u8) \<Rightarrow> nat \<Rightarrow> bool" where
  "rsd_ptr_at mem p \<longleftrightarrow>
     mem p = byte_of CHR ''R'' \<and> mem (p + 1) = byte_of CHR ''S'' \<and>
     mem (p + 2) = byte_of CHR ''D'' \<and> mem (p + 3) = byte_of CHR '' '' \<and>
     mem (p + 4) = byte_of CHR ''P'' \<and> mem (p + 5) = byte_of CHR ''T'' \<and>
     mem (p + 6) = byte_of CHR ''R''"

text \<open>
  The scan loop of lines 235 to 247; the result is the final \<open>scan\<close> and \<open>good\<close>.
  \<open>scan += 16\<close> may wrap, so the loop is a partial function.
\<close>

partial_function (option) rsdp_scan :: "(nat \<Rightarrow> u8) \<Rightarrow> u64 \<Rightarrow> u64 \<Rightarrow> (u64 \<times> bool) option" where
  "rsdp_scan mem scan scan_top =
     (if scan < scan_top then
        (if rsd_ptr_at mem (unat scan) then Some (scan, True)
         else rsdp_scan mem (scan + 16) scan_top)
      else Some (scan, False))"

definition locate_rsdp :: "env \<Rightarrow> (nat \<Rightarrow> u8) \<Rightarrow> (u64 \<times> bool) option" where
  "locate_rsdp e mem = rsdp_scan mem (fst (select_scan e)) (snd (select_scan e))"

text \<open>
  The signature as the ACPI specification words it: the eight bytes \<open>RSD PTR\<close> and a
  space. It is what the locator is compared with, not what it computes.
\<close>

definition rsd_ptr_signature8_at :: "(nat \<Rightarrow> u8) \<Rightarrow> nat \<Rightarrow> bool" where
  "rsd_ptr_signature8_at mem p \<longleftrightarrow> map (\<lambda>k. mem (p + k)) [0..<8] = map byte_of ''RSD PTR ''"

text \<open>The checksum loop of lines 257 to 261, in \<^verbatim>\<open>uint8_t\<close>.\<close>

definition rsdp_checksum :: "env \<Rightarrow> (nat \<Rightarrow> u8) \<Rightarrow> nat \<Rightarrow> u8" where
  "rsdp_checksum e mem rsdp = foldl (\<lambda>check k. check + mem (rsdp + k)) 0 [0..<rsdp_sizeof e]"

definition read32 :: "(nat \<Rightarrow> u8) \<Rightarrow> nat \<Rightarrow> u32" where
  "read32 mem p = ucast (mem p) OR push_bit 8 (ucast (mem (p + 1))) OR
     push_bit 16 (ucast (mem (p + 2))) OR push_bit 24 (ucast (mem (p + 3)))"

definition apic_at :: "(nat \<Rightarrow> u8) \<Rightarrow> nat \<Rightarrow> bool" where
  "apic_at mem table \<longleftrightarrow>
     mem table = byte_of CHR ''A'' \<and> mem (table + 1) = byte_of CHR ''P'' \<and>
     mem (table + 2) = byte_of CHR ''I'' \<and> mem (table + 3) = byte_of CHR ''C''"

definition lapic_enabled_at :: "(nat \<Rightarrow> u8) \<Rightarrow> nat \<Rightarrow> bool" where
  "lapic_enabled_at mem entry \<longleftrightarrow> mem entry = 0 \<and> mem (entry + 4) AND 0x01 \<noteq> 0"

definition madt_next :: "(nat \<Rightarrow> u8) \<Rightarrow> nat \<Rightarrow> nat" where
  "madt_next mem entry = entry + unat (mem (entry + 1))"

definition record_core :: "int \<Rightarrow> u8 \<Rightarrow> kstate \<Rightarrow> kstate" where
  "record_core cores apic s =
     upd_local cores (\<lambda>p. p\<lparr>lapic_id := uint apic\<rparr>) (upd_local cores (\<lambda>p. p\<lparr>cpu_id := cores\<rparr>) s)"

text \<open>
  The inner loop of lines 281 to 296 over the entries of one MADT, from \<open>entry\<close> to
  \<open>limit\<close>. The result is the state, \<open>cores\<close>, and whether \<^verbatim>\<open>goto _toomany\<close> was taken.
  An entry of length 0 does not move \<open>entry\<close>, so the loop is a partial function.
\<close>

partial_function (option) madt_walk ::
  "(nat \<Rightarrow> u8) \<Rightarrow> nat \<Rightarrow> nat \<Rightarrow> kstate \<Rightarrow> int \<Rightarrow> (kstate \<times> int \<times> bool) option" where
  "madt_walk mem limit entry s cores =
     (if entry < limit then
        (if lapic_enabled_at mem entry then
           (if cores = 32 then Some (printf ''smp: too many cores\<newline>'' s, cores, True)
            else madt_walk mem limit (madt_next mem entry)
                   (record_core cores (mem (entry + 3)) s) (cores + 1))
         else madt_walk mem limit (madt_next mem entry) s cores)
      else Some (s, cores, False))"

text \<open>
  The outer loop of lines 275 to 298 over the pointers of the RSDT; \<open>i\<close> is the loop
  index. The result is the state, \<open>cores\<close> and \<open>lapic_base\<close> at the label
  \<^verbatim>\<open>_toomany\<close>.
\<close>

definition rsdt_count :: "env \<Rightarrow> (nat \<Rightarrow> u8) \<Rightarrow> nat \<Rightarrow> nat" where
  "rsdt_count e mem rsdt = unat ((read32 mem (rsdt + sdt_length e) - 36) div 4)"

definition rsdt_pointer :: "env \<Rightarrow> (nat \<Rightarrow> u8) \<Rightarrow> nat \<Rightarrow> nat \<Rightarrow> nat" where
  "rsdt_pointer e mem rsdt i = unat (read32 mem (rsdt + rsdt_pointers e + 4 * i))"

definition madt_top :: "env \<Rightarrow> (nat \<Rightarrow> u8) \<Rightarrow> nat \<Rightarrow> nat" where
  "madt_top e mem table = table + unat (read32 mem (table + sdt_length e))"

function rsdt_walk ::
  "env \<Rightarrow> (nat \<Rightarrow> u8) \<Rightarrow> nat \<Rightarrow> nat \<Rightarrow> kstate \<Rightarrow> int \<Rightarrow> u64 \<Rightarrow> (kstate \<times> int \<times> u64) option" where
  "rsdt_walk e mem rsdt i s cores lapic_base =
     (if i < rsdt_count e mem rsdt then
        (if apic_at mem (rsdt_pointer e mem rsdt i) then
           (case madt_walk mem (madt_top e mem (rsdt_pointer e mem rsdt i))
                   (rsdt_pointer e mem rsdt i + madt_entries e) s cores of
              None \<Rightarrow> None
            | Some (s', cores', toomany) \<Rightarrow>
                if toomany then
                  Some (s', cores', ucast (read32 mem (rsdt_pointer e mem rsdt i + madt_lapic_addr e)))
                else rsdt_walk e mem rsdt (Suc i) s' cores'
                       (ucast (read32 mem (rsdt_pointer e mem rsdt i + madt_lapic_addr e))))
         else rsdt_walk e mem rsdt (Suc i) s cores lapic_base)
      else Some (s, cores, lapic_base))"
  by pat_completeness auto
termination
  by (relation "measure (\<lambda>(e, mem, rsdt, i, s, cores, lapic_base). rsdt_count e mem rsdt - i)") auto

section \<open>Trampoline placement and AP handshake\<close>

definition memcpy_phys :: "nat \<Rightarrow> nat \<Rightarrow> nat \<Rightarrow> kstate \<Rightarrow> kstate" where
  "memcpy_phys dst src n s =
     (emit (MemcpyPhys dst src n) s)\<lparr>phys :=
        (\<lambda>a. if dst \<le> a \<and> a < dst + n then phys s (src + (a - dst)) else phys s a)\<rparr>"

definition store_bytes :: "nat \<Rightarrow> u8 list \<Rightarrow> kstate \<Rightarrow> kstate" where
  "store_bytes dst bs s =
     s\<lparr>phys := (\<lambda>a. if dst \<le> a \<and> a < dst + length bs then bs ! (a - dst) else phys s a)\<rparr>"

text \<open>
  Modelled from the spec: \<^verbatim>\<open>gdt_copy_to_trampoline(ap, trampoline)\<close> is defined in the
  GDT module, outside this file; it patches the 10-byte GDT pointer of the AP at the
  address it is given.
\<close>

definition gdt_copy_to_trampoline :: "env \<Rightarrow> int \<Rightarrow> nat \<Rightarrow> kstate \<Rightarrow> kstate" where
  "gdt_copy_to_trampoline e ap dst s =
     store_bytes dst (take 10 (gdt_pointer e ap)) (emit (GdtCopyToTrampoline ap dst) s)"

text \<open>
  \<^verbatim>\<open>short_delay\<close> spins on the time-stamp counter; time is outside the model, and the
  call is recorded as an event.
\<close>

definition short_delay :: "nat \<Rightarrow> kstate \<Rightarrow> kstate" where
  "short_delay amount s = emit (ShortDelay amount) s"

text \<open>
  The \<^verbatim>\<open>do { pause } while (!_ap_startup_flag)\<close> loop of the boot processor. The AP
  named by \<open>_ap_current\<close> runs \<^verbatim>\<open>ap_main\<close> meanwhile; if it never sets the flag, the boot
  processor spins forever.
\<close>

definition wait_for_ap :: "env \<Rightarrow> kstate \<Rightarrow> kstate option" where
  "wait_for_ap e s =
     (case ap_ack_spins e (ap_current s) of
        None \<Rightarrow> None
      | Some n \<Rightarrow> Some ((ap_main e s)\<lparr>trace := trace (ap_main e s) @ replicate (Suc n) Pause\<rparr>))"

text \<open>The body of the loop of lines 317 to 337.\<close>

definition start_ap :: "env \<Rightarrow> int \<Rightarrow> kstate \<Rightarrow> kstate option" where
  "start_ap e i s0 =
     (let s1 = s0\<lparr>ap_startup_flag := 0\<rparr>;
          s2 = gdt_copy_to_trampoline e i (0x1000 + ap_bootstrap_gdtp e) s1;
          s3 = (emit (Valloc (kernel_stack_size e)) s2)\<lparr>ap_stack_base :=
                  valloc e i + kernel_stack_size e\<rparr>;
          s4 = s3\<lparr>ap_current := i\<rparr>
      in case lapic_send_ipi e (lapic_id (processor_local_data s4 i)) 0x4500 s4 of
           None \<Rightarrow> None
         | Some s5 \<Rightarrow>
             (case lapic_send_ipi e (lapic_id (processor_local_data s5 i)) 0x4601
                     (short_delay 5000 s5) of
                None \<Rightarrow> None
              | Some s6 \<Rightarrow> wait_for_ap e s6))"

function ap_bringup :: "env \<Rightarrow> int \<Rightarrow> int \<Rightarrow> kstate \<Rightarrow> kstate option" where
  "ap_bringup e cores i s =
     (if i < cores then
        (case start_ap e i s of None \<Rightarrow> None | Some s' \<Rightarrow> ap_bringup e cores (i + 1) s')
      else Some s)"
  by pat_completeness auto
termination
  by (relation "measure (\<lambda>(e, cores, i, s). nat (cores - i))") auto

text \<open>Lines 310 to 343.\<close>

definition trampoline_save :: "env \<Rightarrow> kstate \<Rightarrow> kstate" where
  "trampoline_save e s =
     memcpy_phys (unat (push_bit 12 (mmu_allocate_a_frame e))) 0x1000 0x1000 (emit AllocateAFrame s)"

definition trampoline_install :: "env \<Rightarrow> kstate \<Rightarrow> kstate" where
  "trampoline_install e s =
     store_bytes 0x1000 (ap_bootstrap e) (emit (MemcpyBootstrap 0x1000 (length (ap_bootstrap e))) s)"

definition trampoline_restore :: "env \<Rightarrow> kstate \<Rightarrow> kstate" where
  "trampoline_restore e s =
     emit (FrameClear (push_bit 12 (mmu_allocate_a_frame e)))
       (memcpy_phys 0x1000 (unat (push_bit 12 (mmu_allocate_a_frame e))) 0x1000 s)"

definition smp_bringup :: "env \<Rightarrow> int \<Rightarrow> kstate \<Rightarrow> kstate option" where
  "smp_bringup e cores s =
     (case ap_bringup e cores 1 (trampoline_install e (trampoline_save e s)) of
        None \<Rightarrow> None
      | Some s' \<Rightarrow>
          Some (dprintf ''smp: enabled with %d cores\<newline>'' cores (trampoline_restore e s')))"

section \<open>Discovery entry point\<close>

text \<open>The six ways out of \<^verbatim>\<open>smp_initialize\<close>, in the order of its return statements.\<close>

datatype outcome = NoRsdPtr | BadChecksum | NoSmp | NoLapicBase | OneCore | Enabled

text \<open>Lines 271 to 343, entered with the address of the accepted RSDP.\<close>

definition smp_parse_and_start :: "env \<Rightarrow> nat \<Rightarrow> kstate \<Rightarrow> (outcome \<times> kstate) option" where
  "smp_parse_and_start e rsdp s =
     (case rsdt_walk e (phys s) (unat (read32 (phys s) (rsdp + rsdp_rsdt_address e))) 0 s 0 0 of
        None \<Rightarrow> None
      | Some (s1, cores, lapic_base) \<Rightarrow>
          (let s2 = s1\<lparr>processor_count := cores\<rparr> in
           if lapic_base = 0 then Some (NoLapicBase, s2)
           else
             (let s3 = (emit (MapMmioRegion lapic_base 0x1000) s2)\<lparr>lapic_final :=
                         mmu_map_mmio_region e lapic_base 0x1000\<rparr>
              in if cores \<le> 1 then Some (OneCore, s3)
                 else (case smp_bringup e cores s3 of
                         None \<Rightarrow> None
                       | Some s4 \<Rightarrow> Some (Enabled, s4)))))"

text \<open>
  \<^verbatim>\<open>smp_initialize\<close> on the boot processor, whose descriptor is index 0. \<open>None\<close> means
  that the call does not return.
\<close>

definition smp_initialize :: "env \<Rightarrow> kstate \<Rightarrow> (outcome \<times> kstate) option" where
  "smp_initialize e s0 =
     (case locate_rsdp e (phys s0) of
        None \<Rightarrow> None
      | Some (scan, good) \<Rightarrow>
          (let s1 = load_processor_info e 0 s0 in
           if \<not> good then Some (NoRsdPtr, printf ''smp: No RSD PTR found\<newline>'' s1)
           else if rsdp_checksum e (phys s1) (unat scan) \<noteq> 0 \<and> \<not> args_present e ''noacpichecksum''
             then Some (BadChecksum,
               printf ''smp: Bad checksum on RSDP (add 'noacpichecksum' to ignore this)\<newline>'' s1)
           else if args_present e ''nosmp'' then Some (NoSmp, s1)
           else smp_parse_and_start e (unat scan) s1))"

section \<open>Concrete platforms used to exercise the model\<close>

text \<open>
  The state in which the boot processor enters \<^verbatim>\<open>smp_initialize\<close>: the static
  initialisers of the file (\<^verbatim>\<open>lapic_final = 0\<close>, the three handshake variables 0), and,
  declared outside it, \<open>processor_count\<close> 1 before discovery and zeroed descriptors.
\<close>

definition initial_locals :: processor_local where
  "initial_locals = \<lparr>cpu_id = 0, lapic_id = 0, cpu_manufacturer = [], cpu_model = 0,
     cpu_family = 0, cpu_model_name = replicate 48 0, current_pml = 0,
     kernel_idle_task = 0, current_process = 0\<rparr>"

definition initial_state :: "(nat \<Rightarrow> u8) \<Rightarrow> kstate" where
  "initial_state mem = \<lparr>phys = mem, processor_local_data = (\<lambda>_. initial_locals),
     processor_count = 1, lapic_final = 0, ap_stack_base = 0, ap_startup_flag = 0,
     ap_current = 0, klog = [], trace = [], lapic_reads = 0\<rparr>"

text \<open>
  A platform with the ACPI 1.0 layouts (20-byte RSDP with the RSDT address at byte 16,
  36-byte table header with the length at byte 4, MADT entries from byte 44), a multiboot 1
  handoff without a configuration table, an empty command line, and a LAPIC whose
  delivery-status bit reads busy twice out of every three loads.
\<close>

definition example_env :: env where
  "example_env = \<lparr>mboot_is_2 = False, mboot2_find_tag = (\<lambda>_. 0), config_table = 0,
     cmdline = Map.empty, rsdp_sizeof = 20, rsdp_rsdt_address = 16, sdt_length = 4,
     rsdt_pointers = 36, madt_lapic_addr = 36, madt_entries = 44,
     cpuid = (\<lambda>_ _. (0, 0, 0, 0)), mmu_map_mmio_region = (\<lambda>p _. p),
     mmu_allocate_a_frame = 0x200, ap_bootstrap = replicate 128 0x90,
     ap_bootstrap_gdtp = 64, gdt_pointer = (\<lambda>_. replicate 10 0xAA),
     valloc = (\<lambda>_. 0x800000), kernel_stack_size = 0x8000,
     lapic_mmio = (\<lambda>n _. if n mod 3 = 2 then 0 else 0x1000),
     ap_ack_spins = (\<lambda>_. Some 0), spawn_kidle = (\<lambda>core _. nat core + 100),
     init_page_region = 0x100000\<rparr>"

definition stuck_lapic_env :: env where
  "stuck_lapic_env = example_env\<lparr>lapic_mmio := (\<lambda>_ _. 0x1000)\<rparr>"

definition zero_memory :: "nat \<Rightarrow> u8" where
  "zero_memory = (\<lambda>_. 0)"

definition mapped_state :: kstate where
  "mapped_state = (initial_state zero_memory)\<lparr>lapic_final := 0xFEE00000, processor_count := 4\<rparr>"

text \<open>A memory image: the bytes \<open>bs\<close> from address \<open>base\<close> on, over \<open>mem\<close>.\<close>

definition place :: "nat \<Rightarrow> u8 list \<Rightarrow> (nat \<Rightarrow> u8) \<Rightarrow> nat \<Rightarrow> u8" where
  "place base bs mem = (\<lambda>a. if base \<le> a \<and> a < base + length bs then bs ! (a - base) else mem a)"

text \<open>Seven signature bytes followed by \<open>X\<close>, at the legacy scan base.\<close>

definition seven_byte_memory :: "nat \<Rightarrow> u8" where
  "seven_byte_memory = place 0xE0000 (map byte_of ''RSD PTRX'') zero_memory"

text \<open>The full signature twice: at an odd multiple of 8 and on the next 16-byte stride.\<close>

definition second_stride_memory :: "nat \<Rightarrow> u8" where
  "second_stride_memory = place 0xE0008 (map byte_of ''RSD PTR RSD PTR '') zero_memory"

text \<open>The full signature only at an offset that is not a multiple of 16.\<close>

definition unaligned_memory :: "nat \<Rightarrow> u8" where
  "unaligned_memory = place 0xE0008 (map byte_of ''RSD PTR '') zero_memory"

text \<open>The full signature only at 0x100000, on a stride, just above the legacy window.\<close>

definition above_window_memory :: "nat \<Rightarrow> u8" where
  "above_window_memory = place 0x100000 (map byte_of ''RSD PTR '') zero_memory"

definition mboot2_env :: env where
  "mboot2_env = example_env\<lparr>mboot_is_2 := True,
     mboot2_find_tag := (\<lambda>t. if t = 15 then 0x9000 else 0)\<rparr>"

definition config_table_env :: env where
  "config_table_env = example_env\<lparr>config_table := 0xF5A00\<rparr>"

definition acpi_arg_env :: env where
  "acpi_arg_env = example_env\<lparr>cmdline := [''acpi'' \<mapsto> ''0x7fe0000'']\<rparr>"

section \<open>The tables as a reader of the ACPI specification sees them\<close>

text \<open>
  The entries of one MADT: the addresses from \<open>entry\<close> on, each found from the one
  before by its length byte, below \<open>limit\<close>. An entry of length 0 has no successor and
  ends the list.
\<close>

function madt_entry_list :: "(nat \<Rightarrow> u8) \<Rightarrow> nat \<Rightarrow> nat \<Rightarrow> nat list" where
  "madt_entry_list mem limit entry =
     (if entry < limit then
        entry # (if mem (entry + 1) = 0 then []
                 else madt_entry_list mem limit (madt_next mem entry))
      else [])"
  by pat_completeness auto
termination
proof (relation "measure (\<lambda>(mem, limit, entry). limit - entry)")
  fix mem :: "nat \<Rightarrow> u8" and limit entry :: nat
  assume "entry < limit" and "mem (entry + 1) \<noteq> 0"
  then have "0 < unat (mem (entry + 1))" by (simp add: unat_gt_0)
  with \<open>entry < limit\<close>
  show "((mem, limit, madt_next mem entry), (mem, limit, entry))
          \<in> measure (\<lambda>(mem, limit, entry). limit - entry)"
    by (simp add: madt_next_def)
qed simp

declare madt_entry_list.simps [simp del]
declare rsdt_walk.simps [simp del]
declare ap_bringup.simps [simp del]

text \<open>The enabled processor-local APIC entries of the MADT at \<open>table\<close>, in table order.\<close>

definition madt_enabled_lapics :: "env \<Rightarrow> (nat \<Rightarrow> u8) \<Rightarrow> nat \<Rightarrow> nat list" where
  "madt_enabled_lapics e mem table =
     filter (lapic_enabled_at mem)
       (madt_entry_list mem (madt_top e mem table) (table + madt_entries e))"

text \<open>The tables with signature \<open>APIC\<close> that the RSDT points to from index \<open>i\<close> on.\<close>

definition rsdt_apic_tables :: "env \<Rightarrow> (nat \<Rightarrow> u8) \<Rightarrow> nat \<Rightarrow> nat \<Rightarrow> nat list" where
  "rsdt_apic_tables e mem rsdt i =
     filter (apic_at mem) (map (rsdt_pointer e mem rsdt) [i..<rsdt_count e mem rsdt])"

definition enabled_lapics :: "env \<Rightarrow> (nat \<Rightarrow> u8) \<Rightarrow> nat \<Rightarrow> nat \<Rightarrow> nat list" where
  "enabled_lapics e mem rsdt i =
     concat (map (madt_enabled_lapics e mem) (rsdt_apic_tables e mem rsdt i))"

text \<open>Every entry of every MADT has a length byte of at least 1.\<close>

definition madt_lengths_positive :: "env \<Rightarrow> (nat \<Rightarrow> u8) \<Rightarrow> nat \<Rightarrow> nat \<Rightarrow> bool" where
  "madt_lengths_positive e mem rsdt i \<longleftrightarrow>
     (\<forall>table \<in> set (rsdt_apic_tables e mem rsdt i).
        \<forall>a \<in> set (madt_entry_list mem (madt_top e mem table) (table + madt_entries e)).
          1 \<le> unat (mem (a + 1)))"

text \<open>
  What the two loops do to a list of enabled entries: one descriptor per entry until
  \<open>cores\<close> is 32, then the diagnostic. Used to state what the loops compute.
\<close>

fun assign_cores :: "(nat \<Rightarrow> u8) \<Rightarrow> nat list \<Rightarrow> kstate \<Rightarrow> int \<Rightarrow> kstate \<times> int \<times> bool" where
  "assign_cores mem [] s cores = (s, cores, False)"
| "assign_cores mem (a # as) s cores =
     (if cores = 32 then (printf ''smp: too many cores\<newline>'' s, cores, True)
      else assign_cores mem as (record_core cores (mem (a + 3)) s) (cores + 1))"

text \<open>
  Memory of a two-processor machine: four bytes of earlier boot data at 0x1000, where the
  trampoline goes, and the firmware tables: an RSDP at 0xE0000 whose bytes sum to 0, an
  RSDT at 0xE0100 with one pointer, and a MADT at 0xE0200 with the LAPIC at 0xFEE00000 and
  four entries: an enabled processor (APIC ID 0), an I/O APIC (type 1, 12 bytes), a
  disabled processor (APIC ID 1) and an enabled processor (APIC ID 2).
\<close>

definition example_rsdp :: "u8 list" where
  "example_rsdp =
     [82, 83, 68, 32, 80, 84, 82, 32, 39, 84, 79, 65, 82, 85, 32, 0, 0, 1, 14, 0]"

definition example_rsdt :: "u8 list" where
  "example_rsdt =
     [82, 83, 68, 84, 40, 0, 0, 0, 1, 0, 84, 79, 65, 82, 85, 32, 0, 0, 0, 0, 0, 0, 0,
      0, 0, 0, 0, 0, 0, 0, 0, 0, 0, 0, 0, 0, 0, 2, 14, 0]"

definition example_madt :: "u8 list" where
  "example_madt =
     [65, 80, 73, 67, 80, 0, 0, 0, 1, 0, 84, 79, 65, 82, 85, 32, 0, 0, 0, 0, 0, 0, 0,
      0, 0, 0, 0, 0, 0, 0, 0, 0, 0, 0, 0, 0, 0, 0, 224, 254, 1, 0, 0, 0, 0, 8, 0, 0,
      1, 0, 0, 0, 1, 12, 0, 0, 0, 0, 192, 254, 0, 0, 0, 0, 0, 8, 1, 1, 0, 0, 0, 0, 0,
      8, 2, 2, 1, 0, 0, 0]"

definition example_low :: "u8 list" where
  "example_low = [0xDE, 0xAD, 0xBE, 0xEF]"

definition example_memory :: "nat \<Rightarrow> u8" where
  "example_memory =
     place 0x1000 example_low
       (place 0xE0000 example_rsdp
         (place 0xE0100 example_rsdt (place 0xE0200 example_madt zero_memory)))"

text \<open>The same tables with the checksum byte of the RSDP off by 0x42.\<close>

definition bad_checksum_rsdp :: "u8 list" where
  "bad_checksum_rsdp =
     [82, 83, 68, 32, 80, 84, 82, 32, 105, 84, 79, 65, 82, 85, 32, 0, 0, 1, 14, 0]"

definition bad_checksum_memory :: "nat \<Rightarrow> u8" where
  "bad_checksum_memory =
     place 0x1000 example_low
       (place 0xE0000 bad_checksum_rsdp
         (place 0xE0100 example_rsdt (place 0xE0200 example_madt zero_memory)))"

text \<open>The state in which the AP with descriptor 1 enters \<^verbatim>\<open>ap_main\<close>.\<close>

definition ap1_state :: kstate where
  "ap1_state = (initial_state zero_memory)\<lparr>
     processor_local_data := (\<lambda>j. initial_locals\<lparr>cpu_id := j, lapic_id := j\<rparr>),
     processor_count := 2, lapic_final := 0xFEE00000, ap_current := 1\<rparr>"

section \<open>What the start of one AP leaves unchanged\<close>

text \<open>
  Between two states of the bring-up loop: the counters and the LAPIC mapping are the
  same, every descriptor keeps its \<open>cpu_id\<close> and \<open>lapic_id\<close>, memory differs at most in
  the ten bytes of the GDT pointer inside the trampoline page, the log has grown by
  mismatch lines only, and the trace has grown.
\<close>

definition ap_start_keeps :: "env \<Rightarrow> kstate \<Rightarrow> kstate \<Rightarrow> bool" where
  "ap_start_keeps e s s' \<longleftrightarrow>
     processor_count s' = processor_count s \<and> lapic_final s' = lapic_final s \<and>
     (\<forall>j. cpu_id (processor_local_data s' j) = cpu_id (processor_local_data s j) \<and>
          lapic_id (processor_local_data s' j) = lapic_id (processor_local_data s j)) \<and>
     (\<forall>a. a < 0x1000 + ap_bootstrap_gdtp e \<or> 0x1000 + ap_bootstrap_gdtp e + 10 \<le> a \<longrightarrow>
          phys s' a = phys s a) \<and>
     (\<exists>xs. klog s' = klog s @ xs \<and> set xs \<subseteq> {Printf ''smp: lapic id does not match\<newline>''}) \<and>
     (\<exists>ys. trace s' = trace s @ ys)"

text \<open>
  The hardware answers on which the bring-up returns: from every load on, the
  delivery-status bit reads clear after finitely many loads, and every AP up to \<open>cores\<close>
  sets the startup flag.
\<close>

definition lapic_settles :: "env \<Rightarrow> bool" where
  "lapic_settles e \<longleftrightarrow> (\<forall>n a. \<exists>k. lapic_mmio e (n + k) a AND 0x1000 = 0)"

definition aps_acknowledge :: "env \<Rightarrow> int \<Rightarrow> bool" where
  "aps_acknowledge e cores \<longleftrightarrow> (\<forall>i. 1 \<le> i \<and> i < cores \<longrightarrow> ap_ack_spins e i \<noteq> None)"

text \<open>
  The platforms the example memories are run on: no boot-provided RSDP address (so the
  legacy window is scanned) and the ACPI 1.0 layouts.
\<close>

definition standard_platform :: "env \<Rightarrow> bool" where
  "standard_platform e \<longleftrightarrow>
     \<not> mboot_is_2 e \<and> config_table e = 0 \<and> \<not> args_present e ''acpi'' \<and>
     rsdp_sizeof e = 20 \<and> rsdp_rsdt_address e = 16 \<and> sdt_length e = 4 \<and>
     rsdt_pointers e = 36 \<and> madt_lapic_addr e = 36 \<and> madt_entries e = 44"

definition nosmp_env :: env where
  "nosmp_env = example_env\<lparr>cmdline := [''nosmp'' \<mapsto> '''']\<rparr>"

definition noacpichecksum_env :: env where
  "noacpichecksum_env = example_env\<lparr>cmdline := [''noacpichecksum'' \<mapsto> '''']\<rparr>"

text \<open>
  A machine with forty enabled processors: the same RSDP and RSDT, and a MADT at 0xE0200 of
  364 bytes whose forty 8-byte entries, from 0xE022C on, are processor entries with flag
  bit 0 set and APIC ID equal to their position.
\<close>

definition crowded_header :: "u8 list" where
  "crowded_header =
     [65, 80, 73, 67, 108, 1, 0, 0, 1, 0, 84, 79, 65, 82, 85, 32, 0, 0, 0, 0, 0, 0, 0,
      0, 0, 0, 0, 0, 0, 0, 0, 0, 0, 0, 0, 0, 0, 0, 224, 254, 1, 0, 0, 0]"

definition crowded_memory :: "nat \<Rightarrow> u8" where
  "crowded_memory =
     (\<lambda>a. if 0xE022C \<le> a \<and> a < 0xE022C + 8 * 40 then
            (if (a - 0xE022C) mod 8 = 1 then 8
             else if (a - 0xE022C) mod 8 = 2 \<or> (a - 0xE022C) mod 8 = 3
               then of_nat ((a - 0xE022C) div 8)
             else if (a - 0xE022C) mod 8 = 4 then 1
             else 0)
          else place 0xE0000 example_rsdp
                 (place 0xE0100 example_rsdt (place 0xE0200 crowded_header zero_memory)) a)"

text \<open>
  A malformed table: the same RSDP and RSDT, and a MADT at 0xE0200 of 52 bytes whose only
  entry, at 0xE022C, is an enabled processor entry (APIC ID 0) with length byte 0.
\<close>

definition zero_length_madt :: "u8 list" where
  "zero_length_madt =
     [65, 80, 73, 67, 52, 0, 0, 0, 1, 0, 84, 79, 65, 82, 85, 32, 0, 0, 0, 0, 0, 0, 0,
      0, 0, 0, 0, 0, 0, 0, 0, 0, 0, 0, 0, 0, 0, 0, 224, 254, 1, 0, 0, 0, 0, 0, 0, 0,
      1, 0, 0, 0]"

definition zero_length_memory :: "nat \<Rightarrow> u8" where
  "zero_length_memory =
     place 0xE0000 example_rsdp
       (place 0xE0100 example_rsdt (place 0xE0200 zero_length_madt zero_memory))"

section \<open>Properties of the LAPIC gateway\<close>

lemma ipi_poll_clears:
  assumes "\<forall>k<n. lapic_mmio e (lapic_reads s + k) (lapic_final s + 0x300) AND 0x1000 \<noteq> 0"
      and "lapic_mmio e (lapic_reads s + n) (lapic_final s + 0x300) AND 0x1000 = 0"
  shows "ipi_poll e s = Some (s\<lparr>trace := trace s @ concat (map (\<lambda>k. [Pause,
            MmioRead (lapic_final s + 0x300) (lapic_mmio e (lapic_reads s + k) (lapic_final s + 0x300))])
            [0..<Suc n]), lapic_reads := lapic_reads s + Suc n\<rparr>)"
  using assms
proof (induction n arbitrary: s)
  case 0
  then show ?case
    by (subst ipi_poll.simps) (simp add: lapic_read_def emit_def Let_def)
next
  case (Suc n)
  let ?s1 = "snd (lapic_read e 0x300 (emit Pause s))"
  have busy: "fst (lapic_read e 0x300 (emit Pause s)) AND push_bit 12 1 \<noteq> 0"
    using Suc.prems(1)[rule_format, of 0] by (simp add: lapic_read_def emit_def Let_def)
  have r: "lapic_reads ?s1 = Suc (lapic_reads s)" "lapic_final ?s1 = lapic_final s"
    by (simp_all add: lapic_read_def emit_def Let_def)
  have a: "\<forall>k<n. lapic_mmio e (lapic_reads ?s1 + k) (lapic_final ?s1 + 0x300) AND 0x1000 \<noteq> 0"
    using Suc.prems(1) by (auto simp: r)
  have b: "lapic_mmio e (lapic_reads ?s1 + n) (lapic_final ?s1 + 0x300) AND 0x1000 = 0"
    using Suc.prems(2) by (simp add: r)
  have step: "ipi_poll e s = ipi_poll e ?s1"
    by (subst ipi_poll.simps) (use busy in simp)
  have shift: "[0..<Suc (Suc n)] = 0 # map Suc [0..<Suc n]"
    by (simp only: map_Suc_upt upt_conv_Cons[of 0 "Suc (Suc n)"])
  show ?case
    unfolding step Suc.IH[OF a b] shift
    by (simp add: lapic_read_def emit_def Let_def o_def)
qed

lemma ipi_poll_returns_only_when_clear:
  assumes "ipi_poll e s = Some s'"
  shows "\<exists>k. lapic_mmio e (lapic_reads s + k) (lapic_final s + 0x300) AND 0x1000 = 0"
  using assms
proof (induction e s s' rule: ipi_poll.raw_induct[rotated 1, consumes 1])
  case (1 ipi_poll e s s')
  show ?case
  proof (cases "fst (lapic_read e 0x300 (emit Pause s)) AND push_bit 12 1 \<noteq> 0")
    case True
    then have "ipi_poll e (snd (lapic_read e 0x300 (emit Pause s))) = Some s'"
      using 1(2) by simp
    from 1(1)[OF this] obtain k where
      "lapic_mmio e (Suc (lapic_reads s) + k) (lapic_final s + 0x300) AND 0x1000 = 0"
      by (auto simp: lapic_read_def emit_def Let_def)
    then show ?thesis by (intro exI[of _ "Suc k"]) simp
  next
    case False
    then show ?thesis by (intro exI[of _ 0]) (simp add: lapic_read_def emit_def Let_def)
  qed
qed

text \<open>
  C8. \<^verbatim>\<open>lapic_send_ipi(id, cmd)\<close> first stores \<open>id << 24\<close> at LAPIC offset 0x310, then
  stores \<open>cmd\<close> at offset 0x300, then repeats "pause, load offset 0x300" and returns at the
  first load whose bit 12 is clear: if the first \<open>n\<close> loads read the bit set and the next
  one reads it clear, the call returns after exactly these two stores and \<open>n + 1\<close>
  pause/load pairs, in this order, and changes nothing else. If the bit never reads
  clear, the call never returns. All addresses are relative to \<open>lapic_final\<close>; the code
  does not test it, so the sequence is the same whatever its value.
\<close>

theorem lapic_send_ipi_protocol:
  "((\<forall>k<n. lapic_mmio e (lapic_reads s + k) (lapic_final s + 0x300) AND 0x1000 \<noteq> 0) \<and>
    lapic_mmio e (lapic_reads s + n) (lapic_final s + 0x300) AND 0x1000 = 0 \<longrightarrow>
    lapic_send_ipi e i cmd s =
      Some (s\<lparr>trace := trace s @
                 [MmioWrite (lapic_final s + 0x310) (push_bit 24 (word_of_int i)),
                  MmioWrite (lapic_final s + 0x300) cmd] @
                 concat (map (\<lambda>k. [Pause, MmioRead (lapic_final s + 0x300)
                     (lapic_mmio e (lapic_reads s + k) (lapic_final s + 0x300))]) [0..<Suc n]),
               lapic_reads := lapic_reads s + Suc n\<rparr>)) \<and>
   ((\<forall>k. lapic_mmio e (lapic_reads s + k) (lapic_final s + 0x300) AND 0x1000 \<noteq> 0) \<longrightarrow>
    lapic_send_ipi e i cmd s = None)"
proof (intro conjI impI)
  let ?s2 = "lapic_write 0x300 cmd (lapic_write 0x310 (push_bit 24 (word_of_int i)) s)"
  have f: "lapic_reads ?s2 = lapic_reads s" "lapic_final ?s2 = lapic_final s"
    by (simp_all add: lapic_write_def emit_def)
  {
    assume h: "(\<forall>k<n. lapic_mmio e (lapic_reads s + k) (lapic_final s + 0x300) AND 0x1000 \<noteq> 0) \<and>
      lapic_mmio e (lapic_reads s + n) (lapic_final s + 0x300) AND 0x1000 = 0"
    have "ipi_poll e ?s2 = Some (?s2\<lparr>trace := trace ?s2 @ concat (map (\<lambda>k. [Pause,
            MmioRead (lapic_final ?s2 + 0x300)
              (lapic_mmio e (lapic_reads ?s2 + k) (lapic_final ?s2 + 0x300))])
            [0..<Suc n]), lapic_reads := lapic_reads ?s2 + Suc n\<rparr>)"
      by (rule ipi_poll_clears) (use h in \<open>simp_all add: f\<close>)
    then show "lapic_send_ipi e i cmd s =
      Some (s\<lparr>trace := trace s @
                 [MmioWrite (lapic_final s + 0x310) (push_bit 24 (word_of_int i)),
                  MmioWrite (lapic_final s + 0x300) cmd] @
                 concat (map (\<lambda>k. [Pause, MmioRead (lapic_final s + 0x300)
                     (lapic_mmio e (lapic_reads s + k) (lapic_final s + 0x300))]) [0..<Suc n]),
               lapic_reads := lapic_reads s + Suc n\<rparr>)"
      unfolding lapic_send_ipi_def f by (simp add: lapic_write_def emit_def)
  }
  {
    assume h: "\<forall>k. lapic_mmio e (lapic_reads s + k) (lapic_final s + 0x300) AND 0x1000 \<noteq> 0"
    show "lapic_send_ipi e i cmd s = None"
    proof (cases "lapic_send_ipi e i cmd s")
      case (Some s')
      then have "ipi_poll e ?s2 = Some s'" by (simp add: lapic_send_ipi_def)
      from ipi_poll_returns_only_when_clear[OF this] h show ?thesis by (simp add: f)
    qed simp
  }
qed

theorem lapic_send_ipi_protocol_witness:
  "lapic_send_ipi example_env 3 0x4500 mapped_state =
     Some (mapped_state\<lparr>trace :=
        [MmioWrite 0xFEE00310 0x3000000, MmioWrite 0xFEE00300 0x4500,
         Pause, MmioRead 0xFEE00300 0x1000, Pause, MmioRead 0xFEE00300 0x1000,
         Pause, MmioRead 0xFEE00300 0], lapic_reads := 3\<rparr>) \<and>
   lapic_send_ipi stuck_lapic_env 3 0x4500 mapped_state = None"
proof -
  have u: "[0..<Suc 2] = [0, 1, 2]" by (simp add: upt_rec)
  show ?thesis
    using lapic_send_ipi_protocol[of 2 example_env mapped_state 3 "0x4500"]
      lapic_send_ipi_protocol[of 0 stuck_lapic_env mapped_state 3 "0x4500"]
    unfolding u
    by (simp add: example_env_def stuck_lapic_env_def mapped_state_def initial_state_def
        less_Suc_eq all_conj_distrib)
qed

section \<open>Properties of the IPI services\<close>

text \<open>
  C9. Each of \<^verbatim>\<open>arch_wakeup_others\<close>, \<^verbatim>\<open>arch_tick_others\<close> and
  \<^verbatim>\<open>arch_tlb_shootdown\<close> returns at once, leaving the whole state (and so the trace of
  LAPIC accesses) as it was, whenever \<open>lapic_final\<close> is 0 or \<open>processor_count\<close> is
  below 2; with \<open>processor_count = 1\<close> this holds for \<^verbatim>\<open>arch_tlb_shootdown\<close> at every
  address.
\<close>

theorem ipi_services_short_circuit:
  "lapic_final s = 0 \<or> processor_count s < 2 \<Longrightarrow>
   arch_wakeup_others e s = Some s \<and> arch_tick_others e s = Some s \<and>
   arch_tlb_shootdown e vaddr s = Some s \<and>
   (\<forall>s'. arch_tlb_shootdown e vaddr s = Some s' \<longrightarrow> trace s' = trace s)"
  by (auto simp: arch_wakeup_others_def arch_tick_others_def arch_tlb_shootdown_def)

theorem ipi_services_short_circuit_witness:
  "processor_count (mapped_state\<lparr>processor_count := 1\<rparr>) = 1 \<and>
   arch_wakeup_others example_env (mapped_state\<lparr>processor_count := 1\<rparr>) =
     Some (mapped_state\<lparr>processor_count := 1\<rparr>) \<and>
   arch_tick_others example_env (mapped_state\<lparr>processor_count := 1\<rparr>) =
     Some (mapped_state\<lparr>processor_count := 1\<rparr>) \<and>
   arch_tlb_shootdown example_env 0xDEAD000 (mapped_state\<lparr>processor_count := 1\<rparr>) =
     Some (mapped_state\<lparr>processor_count := 1\<rparr>)"
  using ipi_services_short_circuit[of "mapped_state\<lparr>processor_count := 1\<rparr>" example_env "0xDEAD000"]
  by (simp add: mapped_state_def initial_state_def)

section \<open>Properties of the RSDP locator\<close>

lemma unat_plus16:
  fixes scan :: u64
  assumes "unat scan + 16 \<le> unat (scan_top :: u64)"
  shows "unat (scan + 16) = unat scan + 16"
proof -
  have "unat scan_top < 2 ^ 64" using unsigned_less[of scan_top, where 'a=nat] by simp
  then have "unat scan + unat (16 :: u64) < 2 ^ LENGTH(64)" using assms by simp
  then have "unat (scan + 16) = unat scan + unat (16 :: u64)"
    by (simp only: unat_add_lem[THEN iffD1])
  then show ?thesis by simp
qed

lemma rsdp_scan_first_hit:
  assumes "unat scan + 16 * k < unat scan_top"
      and "rsd_ptr_at mem (unat scan + 16 * k)"
      and "\<forall>j<k. \<not> rsd_ptr_at mem (unat scan + 16 * j)"
  shows "rsdp_scan mem scan scan_top = Some (scan + 16 * of_nat k, True)"
  using assms
proof (induction k arbitrary: scan)
  case 0
  then have "scan < scan_top" by (simp add: word_less_nat_alt)
  with 0 show ?case by (subst rsdp_scan.simps) simp
next
  case (Suc k)
  have lt: "scan < scan_top" using Suc.prems(1) by (simp add: word_less_nat_alt)
  have miss: "\<not> rsd_ptr_at mem (unat scan)" using Suc.prems(3)[rule_format, of 0] by simp
  have u: "unat (scan + 16) = unat scan + 16"
    by (rule unat_plus16[of scan scan_top]) (use Suc.prems(1) in simp)
  have "rsdp_scan mem (scan + 16) scan_top = Some (scan + 16 + 16 * of_nat k, True)"
  proof (rule Suc.IH)
    show "unat (scan + 16) + 16 * k < unat scan_top" using Suc.prems(1) by (simp add: u)
    show "rsd_ptr_at mem (unat (scan + 16) + 16 * k)" using Suc.prems(2) by (simp add: u add.assoc)
    show "\<forall>j<k. \<not> rsd_ptr_at mem (unat (scan + 16) + 16 * j)"
    proof (intro allI impI)
      fix j assume "j < k"
      then have "Suc j < Suc k" by simp
      from Suc.prems(3)[rule_format, OF this]
      have "\<not> rsd_ptr_at mem (unat scan + 16 * Suc j)" .
      then show "\<not> rsd_ptr_at mem (unat (scan + 16) + 16 * j)" by (simp add: u add.assoc)
    qed
  qed
  then show ?case
    by (subst rsdp_scan.simps) (simp add: lt miss algebra_simps)
qed

lemma rsdp_scan_exhausts:
  assumes "unat scan_top = unat scan + 16 * n"
      and "\<forall>k<n. \<not> rsd_ptr_at mem (unat scan + 16 * k)"
  shows "rsdp_scan mem scan scan_top = Some (scan_top, False)"
  using assms
proof (induction n arbitrary: scan)
  case 0
  then have "scan = scan_top" by (simp add: word_unat_eq_iff)
  then show ?case by (subst rsdp_scan.simps) simp
next
  case (Suc n)
  have lt: "scan < scan_top" using Suc.prems(1) by (simp add: word_less_nat_alt)
  have miss: "\<not> rsd_ptr_at mem (unat scan)" using Suc.prems(2)[rule_format, of 0] by simp
  have u: "unat (scan + 16) = unat scan + 16"
    by (rule unat_plus16[of scan scan_top]) (use Suc.prems(1) in simp)
  have "rsdp_scan mem (scan + 16) scan_top = Some (scan_top, False)"
  proof (rule Suc.IH)
    show "unat scan_top = unat (scan + 16) + 16 * n" using Suc.prems(1) by (simp add: u)
    show "\<forall>k<n. \<not> rsd_ptr_at mem (unat (scan + 16) + 16 * k)"
    proof (intro allI impI)
      fix j assume "j < n"
      then have "Suc j < Suc n" by simp
      from Suc.prems(2)[rule_format, OF this]
      have "\<not> rsd_ptr_at mem (unat scan + 16 * Suc j)" .
      then show "\<not> rsd_ptr_at mem (unat (scan + 16) + 16 * j)" by (simp add: u add.assoc)
    qed
  qed
  then show ?case
    by (subst rsdp_scan.simps) (simp add: lt miss)
qed

lemma rsdp_scan_miss:
  assumes reg: "scan_top \<le> scan \<or> 16 dvd (unat scan_top - unat scan)"
      and none: "\<forall>k. unat scan + 16 * k < unat scan_top \<longrightarrow> \<not> rsd_ptr_at mem (unat scan + 16 * k)"
  shows "rsdp_scan mem scan scan_top = Some (if scan < scan_top then scan_top else scan, False)"
proof (cases "scan < scan_top")
  case False
  then show ?thesis by (subst rsdp_scan.simps) simp
next
  case True
  then have lt: "unat scan < unat scan_top" by (simp add: word_less_nat_alt)
  from True reg have "16 dvd (unat scan_top - unat scan)" by auto
  then obtain n where n: "unat scan_top - unat scan = 16 * n" by (auto elim: dvdE)
  with lt have eq: "unat scan_top = unat scan + 16 * n" by simp
  have "\<forall>k<n. \<not> rsd_ptr_at mem (unat scan + 16 * k)" using none eq by simp
  from rsdp_scan_exhausts[OF eq this] True show ?thesis by simp
qed

lemma window_regular:
  fixes x :: u64
  shows "x + 0x100000 \<le> x \<or> 16 dvd (unat (x + 0x100000) - unat x)"
proof (cases "unat x + unat (0x100000 :: u64) < 2 ^ LENGTH(64)")
  case True
  then have "unat (x + 0x100000) = unat x + unat (0x100000 :: u64)"
    by (simp only: unat_add_lem[THEN iffD1])
  then show ?thesis by simp
next
  case False
  then have "\<not> x \<le> x + 0x100000" using no_olen_add_nat[of x "0x100000"] by blast
  then show ?thesis by (meson linear)
qed

lemma select_scan_cases:
  "select_scan e = (0xE0000, 0x100000) \<or> (\<exists>x. select_scan e = (x, x + 0x100000))"
  by (simp add: select_scan_def Let_def)

lemma select_scan_regular:
  "snd (select_scan e) \<le> fst (select_scan e) \<or>
   16 dvd (unat (snd (select_scan e)) - unat (fst (select_scan e)))"
proof -
  from select_scan_cases[of e] consider "select_scan e = (0xE0000, 0x100000)"
    | x where "select_scan e = (x, x + 0x100000)" by blast
  then show ?thesis
  proof cases
    case 1
    then show ?thesis by simp
  next
    case 2
    then show ?thesis using window_regular[of x] by simp
  qed
qed

lemma rsdp_scan_sound:
  assumes "rsdp_scan mem scan scan_top = Some (r, True)"
  shows "r < scan_top \<and> rsd_ptr_at mem (unat r)"
  using assms
proof (induction mem scan scan_top "(r, True)" rule: rsdp_scan.raw_induct[rotated 1, consumes 1])
  case (1 rsdp_scan mem scan scan_top)
  then show ?case by (auto split: if_splits)
qed

lemma upt_0_8: "[0..<8] = [0, 1, 2, 3, 4, 5, 6, 7]"
  by (simp add: upt_rec)

lemma unat_stride:
  fixes scan :: u64
  assumes "unat scan + 16 * k < unat (scan_top :: u64)"
  shows "unat (scan + 16 * of_nat k) = unat scan + 16 * k"
proof -
  define w :: u64 where "w = of_nat (16 * k)"
  have b: "unat scan_top < 2 ^ 64" using unsigned_less[of scan_top, where 'a=nat] by simp
  then have "16 * k < 2 ^ LENGTH(64)" using assms by simp
  then have u: "unat w = 16 * k" unfolding w_def by (rule of_nat_inverse[OF refl])
  have "unat scan + unat w < 2 ^ LENGTH(64)"
    using assms b by (simp add: u)
  then have "unat (scan + w) = unat scan + unat w"
    by (simp only: unat_add_lem[THEN iffD1])
  then have r: "unat (scan + w) = unat scan + 16 * k" by (simp only: u)
  have eq: "w = 16 * of_nat k" by (simp add: w_def)
  show ?thesis using r unfolding eq .
qed

lemma rsdp_scan_hit_is_first_stride:
  assumes reg: "scan_top \<le> scan \<or> 16 dvd (unat scan_top - unat scan)"
      and hit: "rsdp_scan mem scan scan_top = Some (r, True)"
  shows "\<exists>k. unat r = unat scan + 16 * k \<and> unat r < unat scan_top \<and> rsd_ptr_at mem (unat r) \<and>
             (\<forall>j<k. \<not> rsd_ptr_at mem (unat scan + 16 * j))"
proof -
  let ?P = "\<lambda>k. unat scan + 16 * k < unat scan_top \<and> rsd_ptr_at mem (unat scan + 16 * k)"
  have "\<exists>k. ?P k"
  proof (rule ccontr)
    assume "\<not> (\<exists>k. ?P k)"
    then have "\<forall>k. unat scan + 16 * k < unat scan_top \<longrightarrow> \<not> rsd_ptr_at mem (unat scan + 16 * k)"
      by blast
    from rsdp_scan_miss[OF reg this] hit show False by simp
  qed
  then obtain k where k: "?P k" and least: "\<forall>j<k. \<not> ?P j"
    using exists_least_iff[of ?P] by blast
  have "\<forall>j<k. \<not> rsd_ptr_at mem (unat scan + 16 * j)"
  proof (intro allI impI)
    fix j assume "j < k"
    with least have "\<not> ?P j" by blast
    moreover have "unat scan + 16 * j < unat scan_top" using k \<open>j < k\<close> by simp
    ultimately show "\<not> rsd_ptr_at mem (unat scan + 16 * j)" by blast
  qed
  note first = this
  from rsdp_scan_first_hit[of scan k scan_top mem] k first hit
  have r: "r = scan + 16 * of_nat k" by simp
  have "unat r = unat scan + 16 * k" unfolding r by (rule unat_stride[of scan k scan_top]) (use k in simp)
  with k first show ?thesis by auto
qed

lemma select_legacy: "select_scan example_env = (0xE0000, 0x100000)"
  by (simp add: select_scan_def example_env_def args_present_def)

lemma second_stride_facts:
  "\<not> rsd_ptr_at second_stride_memory 0xE0000" "rsd_ptr_at second_stride_memory 0xE0010"
  by (simp_all add: second_stride_memory_def rsd_ptr_at_def place_def byte_of_def zero_memory_def)

lemma unaligned_no_stride:
  "\<not> rsd_ptr_at unaligned_memory (0xE0000 + 16 * k)"
proof (cases k)
  case 0
  then show ?thesis
    by (simp add: unaligned_memory_def rsd_ptr_at_def place_def byte_of_def zero_memory_def)
next
  case (Suc j)
  then show ?thesis
    by (simp add: unaligned_memory_def rsd_ptr_at_def place_def byte_of_def zero_memory_def)
qed

lemma unaligned_has: "rsd_ptr_signature8_at unaligned_memory 0xE0008"
  by (simp add: unaligned_memory_def rsd_ptr_signature8_at_def place_def byte_of_def zero_memory_def upt_0_8)

lemma above_window_no_stride:
  "\<forall>k. unat (0xE0000 :: u64) + 16 * k < unat (0x100000 :: u64) \<longrightarrow>
       \<not> rsd_ptr_at above_window_memory (unat (0xE0000 :: u64) + 16 * k)"
  by (simp add: above_window_memory_def rsd_ptr_at_def place_def byte_of_def zero_memory_def)

text \<open>
  C2, as the code has it. The locator probes the addresses \<open>scan\<close>, \<open>scan + 16\<close>,
  \<open>scan + 32\<close>, ... below \<open>scan_top\<close> and stops at the first one that holds the seven bytes
  \<open>RSD PTR\<close>: the eighth byte of the ACPI signature, the space, is never compared. If no
  probed address holds the seven bytes, nothing is found, whatever lies at the addresses
  between the strides.
\<close>

theorem rsdp_locator_strides:
  "(unat (fst (select_scan e)) + 16 * k < unat (snd (select_scan e)) \<and>
    rsd_ptr_at mem (unat (fst (select_scan e)) + 16 * k) \<and>
    (\<forall>j<k. \<not> rsd_ptr_at mem (unat (fst (select_scan e)) + 16 * j)) \<longrightarrow>
    locate_rsdp e mem = Some (fst (select_scan e) + 16 * of_nat k, True)) \<and>
   ((\<forall>k. unat (fst (select_scan e)) + 16 * k < unat (snd (select_scan e)) \<longrightarrow>
         \<not> rsd_ptr_at mem (unat (fst (select_scan e)) + 16 * k)) \<longrightarrow>
    locate_rsdp e mem =
      Some (if fst (select_scan e) < snd (select_scan e) then snd (select_scan e)
            else fst (select_scan e), False))"
  unfolding locate_rsdp_def
  using rsdp_scan_first_hit[of "fst (select_scan e)" k "snd (select_scan e)" mem]
    rsdp_scan_miss[OF select_scan_regular[of e], of mem]
  by blast

theorem rsdp_locator_strides_witness:
  "locate_rsdp example_env second_stride_memory = Some (0xE0010, True) \<and>
   rsd_ptr_signature8_at unaligned_memory 0xE0008 \<and>
   locate_rsdp example_env unaligned_memory = Some (0x100000, False)"
  using rsdp_locator_strides[of example_env 1 second_stride_memory]
    rsdp_locator_strides[of example_env 0 unaligned_memory]
    second_stride_facts unaligned_no_stride unaligned_has
  by (simp add: select_legacy)

text \<open>
  C2 as the specification words it fails: seven signature bytes followed by \<open>X\<close> are reported as a hit, at an
  address where the eight-byte signature does not stand.
\<close>

theorem rsdp_locator_signature_counterexample:
  "locate_rsdp example_env seven_byte_memory = Some (0xE0000, True) \<and>
   \<not> rsd_ptr_signature8_at seven_byte_memory 0xE0000"
  unfolding locate_rsdp_def select_legacy fst_conv snd_conv
  by (subst rsdp_scan.simps)
     (simp add: seven_byte_memory_def rsd_ptr_at_def rsd_ptr_signature8_at_def place_def
        byte_of_def zero_memory_def upt_0_8)

text \<open>
  C3, as the code has it. With a multiboot 2 handoff the window starts 8 bytes after the
  tag of type 14 (of type 15 if there is none of type 14); otherwise at a non-zero
  \<open>config_table\<close>; otherwise at the value of \<open>acpi=\<close>. In these three cases it ends
  0x100000 bytes after its start. With none of them the window is the legacy one, from
  0xE0000 to 0x100000, which is 0x20000 bytes long. Every hit lies in the window, on a
  16-byte stride from its start.
\<close>

theorem scan_window:
  "(mboot_is_2 e \<longrightarrow>
      select_scan e =
        ((if mboot2_find_tag e 14 = 0 then mboot2_find_tag e 15 else mboot2_find_tag e 14) + 8,
         (if mboot2_find_tag e 14 = 0 then mboot2_find_tag e 15 else mboot2_find_tag e 14) + 8
           + 0x100000)) \<and>
   (\<not> mboot_is_2 e \<and> config_table e \<noteq> 0 \<longrightarrow>
      select_scan e = (ucast (config_table e), ucast (config_table e) + 0x100000)) \<and>
   (\<not> mboot_is_2 e \<and> config_table e = 0 \<and> args_present e ''acpi'' \<longrightarrow>
      select_scan e = (xtoi (args_value e ''acpi''), xtoi (args_value e ''acpi'') + 0x100000)) \<and>
   (\<not> mboot_is_2 e \<and> config_table e = 0 \<and> \<not> args_present e ''acpi'' \<longrightarrow>
      select_scan e = (0xE0000, 0x100000)) \<and>
   (\<forall>r. locate_rsdp e mem = Some (r, True) \<longrightarrow>
      fst (select_scan e) \<le> r \<and> r < snd (select_scan e) \<and>
      16 dvd (unat r - unat (fst (select_scan e))))"
proof -
  have "fst (select_scan e) \<le> r \<and> r < snd (select_scan e) \<and>
      16 dvd (unat r - unat (fst (select_scan e)))"
    if h: "locate_rsdp e mem = Some (r, True)" for r
  proof -
    from h have hit: "rsdp_scan mem (fst (select_scan e)) (snd (select_scan e)) = Some (r, True)"
      by (simp add: locate_rsdp_def)
    from rsdp_scan_hit_is_first_stride[OF select_scan_regular[of e] hit]
    obtain k where "unat r = unat (fst (select_scan e)) + 16 * k" by blast
    moreover from rsdp_scan_sound[OF hit] have "r < snd (select_scan e)" by simp
    ultimately show ?thesis by (simp add: word_le_nat_alt)
  qed
  then show ?thesis by (simp add: select_scan_def Let_def)
qed

theorem scan_window_witness:
  "select_scan mboot2_env = (0x9008, 0x109008) \<and>
   select_scan config_table_env = (0xF5A00, 0x1F5A00) \<and>
   select_scan acpi_arg_env = (0x7fe0000, 0x80e0000) \<and>
   select_scan example_env = (0xE0000, 0x100000) \<and>
   locate_rsdp example_env second_stride_memory = Some (0xE0010, True) \<and>
   (0xE0000 :: u64) \<le> 0xE0010 \<and> (0xE0010 :: u64) < 0x100000"
proof -
  have hit: "locate_rsdp example_env second_stride_memory = Some (0xE0010, True)"
    using rsdp_scan_first_hit[of "0xE0000" 1 "0x100000" second_stride_memory] second_stride_facts
    by (simp add: locate_rsdp_def select_legacy)
  show ?thesis
    using scan_window[of mboot2_env second_stride_memory]
      scan_window[of config_table_env second_stride_memory]
      scan_window[of acpi_arg_env second_stride_memory]
      scan_window[of example_env second_stride_memory] hit
    by (simp add: mboot2_env_def config_table_env_def acpi_arg_env_def example_env_def
        args_present_def args_value_def xtoi_def)
qed

text \<open>
  C3 as the specification words it fails for the legacy window: it does not end at 0xE0000 + 0x100000. A
  signature at 0x100000, which is on a stride and below 0xE0000 + 0x100000, is not found.
\<close>

theorem scan_window_counterexample:
  "snd (select_scan example_env) \<noteq> fst (select_scan example_env) + 0x100000 \<and>
   rsd_ptr_signature8_at above_window_memory 0x100000 \<and>
   (0x100000 :: nat) = unat (fst (select_scan example_env)) + 16 * 0x2000 \<and>
   (0x100000 :: nat) < unat (fst (select_scan example_env)) + 0x100000 \<and>
   locate_rsdp example_env above_window_memory = Some (0x100000, False)"
proof -
  have "rsdp_scan above_window_memory 0xE0000 0x100000 = Some (0x100000, False)"
    using rsdp_scan_miss[of "0x100000" "0xE0000" above_window_memory] above_window_no_stride
    by simp
  moreover have "rsd_ptr_signature8_at above_window_memory 0x100000"
    by (simp add: above_window_memory_def rsd_ptr_signature8_at_def place_def byte_of_def
        zero_memory_def upt_0_8)
  ultimately show ?thesis by (simp add: locate_rsdp_def select_legacy)
qed

section \<open>Properties of the MADT walk\<close>

lemma madt_walk_refines:
  assumes "\<forall>a \<in> set (madt_entry_list mem limit entry). mem (a + 1) \<noteq> 0"
  shows "madt_walk mem limit entry s cores =
           Some (assign_cores mem (filter (lapic_enabled_at mem) (madt_entry_list mem limit entry)) s cores)"
  using assms
proof (induction mem limit entry arbitrary: s cores rule: madt_entry_list.induct)
  case (1 mem limit entry)
  show ?case
  proof (cases "entry < limit")
    case False
    then show ?thesis
      by (subst madt_walk.simps, subst madt_entry_list.simps) simp
  next
    case True
    have l: "madt_entry_list mem limit entry =
        entry # (if mem (entry + 1) = 0 then [] else madt_entry_list mem limit (madt_next mem entry))"
      by (subst madt_entry_list.simps) (simp add: True)
    from "1.prems" have nz: "mem (entry + 1) \<noteq> 0" by (simp add: l)
    then have l': "madt_entry_list mem limit entry = entry # madt_entry_list mem limit (madt_next mem entry)"
      using l by simp
    have wf: "\<forall>a \<in> set (madt_entry_list mem limit (madt_next mem entry)). mem (a + 1) \<noteq> 0"
      using "1.prems" by (simp add: l')
    note IH = "1.IH"[OF True nz wf]
    show ?thesis
      by (subst madt_walk.simps) (simp add: True l' IH)
  qed
qed

lemma assign_cores_append:
  "assign_cores mem (xs @ ys) s c =
     (case assign_cores mem xs s c of
        (s', c', True) \<Rightarrow> (s', c', True)
      | (s', c', False) \<Rightarrow> assign_cores mem ys s' c')"
  by (induction xs arbitrary: s c) auto

lemma rsdt_walk_refines:
  assumes "madt_lengths_positive e mem rsdt i"
  shows "\<exists>lb'. rsdt_walk e mem rsdt i s cores lb =
           Some (fst (assign_cores mem (enabled_lapics e mem rsdt i) s cores),
                 fst (snd (assign_cores mem (enabled_lapics e mem rsdt i) s cores)), lb')"
  using assms
proof (induction e mem rsdt i s cores lb rule: rsdt_walk.induct)
  case (1 e mem rsdt i s cores lb)
  show ?case
  proof (cases "i < rsdt_count e mem rsdt")
    case False
    then show ?thesis
      by (subst rsdt_walk.simps) (simp add: enabled_lapics_def rsdt_apic_tables_def)
  next
    case True
    let ?t = "rsdt_pointer e mem rsdt i"
    have up: "[i..<rsdt_count e mem rsdt] = i # [Suc i..<rsdt_count e mem rsdt]"
      using True by (simp add: upt_conv_Cons)
    show ?thesis
    proof (cases "apic_at mem ?t")
      case False
      have same: "enabled_lapics e mem rsdt i = enabled_lapics e mem rsdt (Suc i)"
        "rsdt_apic_tables e mem rsdt i = rsdt_apic_tables e mem rsdt (Suc i)"
        by (simp_all add: enabled_lapics_def rsdt_apic_tables_def up False)
      have "madt_lengths_positive e mem rsdt (Suc i)"
        using "1.prems" by (simp add: madt_lengths_positive_def same)
      from "1.IH"(2)[OF True False this] show ?thesis
        by (subst rsdt_walk.simps) (simp add: True False same)
    next
      case apic: True
      let ?es = "madt_enabled_lapics e mem ?t"
      have tabs: "rsdt_apic_tables e mem rsdt i = ?t # rsdt_apic_tables e mem rsdt (Suc i)"
        by (simp add: rsdt_apic_tables_def up apic)
      then have en: "enabled_lapics e mem rsdt i = ?es @ enabled_lapics e mem rsdt (Suc i)"
        by (simp add: enabled_lapics_def)
      have wf1: "\<forall>a \<in> set (madt_entry_list mem (madt_top e mem ?t) (?t + madt_entries e)). mem (a + 1) \<noteq> 0"
        using "1.prems" by (auto simp: madt_lengths_positive_def tabs)
      have wf2: "madt_lengths_positive e mem rsdt (Suc i)"
        using "1.prems" by (simp add: madt_lengths_positive_def tabs)
      have mw: "madt_walk mem (madt_top e mem ?t) (?t + madt_entries e) s cores =
          Some (assign_cores mem ?es s cores)"
        using madt_walk_refines[OF wf1] by (simp add: madt_enabled_lapics_def)
      obtain s' c' t where a: "assign_cores mem ?es s cores = (s', c', t)"
        by (cases "assign_cores mem ?es s cores") auto
      show ?thesis
      proof (cases t)
        case True
        then show ?thesis
          by (subst rsdt_walk.simps) (simp add: \<open>i < rsdt_count e mem rsdt\<close> apic mw a en assign_cores_append)
      next
        case False
        from "1.IH"(1)[OF \<open>i < rsdt_count e mem rsdt\<close> apic mw[unfolded a] refl refl False wf2]
        show ?thesis
          by (subst rsdt_walk.simps) (simp add: \<open>i < rsdt_count e mem rsdt\<close> apic mw a en assign_cores_append False)
      qed
    qed
  qed
qed

lemma assign_cores_count:
  assumes "c \<le> 32"
  shows "fst (snd (assign_cores mem es s c)) = min (c + int (length es)) 32 \<and>
         snd (snd (assign_cores mem es s c)) = (32 < c + int (length es))"
  using assms by (induction es arbitrary: s c) auto

lemma record_core_fields:
  "klog (record_core c apic s) = klog s"
  "processor_local_data (record_core c apic s) =
     (processor_local_data s)(c := (processor_local_data s c)\<lparr>cpu_id := c, lapic_id := uint apic\<rparr>)"
  by (simp_all add: record_core_def upd_local_def)

lemma record_core_frame:
  "record_core c apic s = s\<lparr>processor_local_data := processor_local_data (record_core c apic s)\<rparr>"
  by (simp add: record_core_def upd_local_def)

lemma assign_cores_log:
  assumes "c \<le> 32"
  shows "klog (fst (assign_cores mem es s c)) =
         klog s @ (if 32 < c + int (length es) then [Printf ''smp: too many cores\<newline>''] else [])"
  using assms by (induction es arbitrary: s c) (auto simp: record_core_fields printf_def)

lemma assign_cores_frame:
  "fst (assign_cores mem es s c) =
     s\<lparr>processor_local_data := processor_local_data (fst (assign_cores mem es s c)),
       klog := klog (fst (assign_cores mem es s c))\<rparr>"
proof (induction es arbitrary: s c)
  case Nil
  then show ?case by simp
next
  case (Cons a es)
  show ?case
  proof (cases "c = 32")
    case True
    then show ?thesis by (simp add: printf_def)
  next
    case False
    have "fst (assign_cores mem es (record_core c (mem (a + 3)) s) (c + 1)) =
      (record_core c (mem (a + 3)) s)\<lparr>processor_local_data :=
         processor_local_data (fst (assign_cores mem es (record_core c (mem (a + 3)) s) (c + 1))),
       klog := klog (fst (assign_cores mem es (record_core c (mem (a + 3)) s) (c + 1)))\<rparr>"
      by (rule Cons.IH)
    also have "\<dots> = s\<lparr>processor_local_data :=
         processor_local_data (fst (assign_cores mem es (record_core c (mem (a + 3)) s) (c + 1))),
       klog := klog (fst (assign_cores mem es (record_core c (mem (a + 3)) s) (c + 1)))\<rparr>"
      by (subst record_core_frame) simp
    finally show ?thesis using False by simp
  qed
qed

lemma assign_cores_descriptors:
  assumes "c \<le> 32"
  shows "processor_local_data (fst (assign_cores mem es s c)) j =
     (if c \<le> j \<and> j < min (c + int (length es)) 32
      then (processor_local_data s j)\<lparr>cpu_id := j, lapic_id := uint (mem (es ! nat (j - c) + 3))\<rparr>
      else processor_local_data s j)"
  using assms
proof (induction es arbitrary: s c)
  case Nil
  then show ?case by simp
next
  case (Cons a es)
  show ?case
  proof (cases "c = 32")
    case True
    then show ?thesis by (simp add: printf_def)
  next
    case False
    with Cons.prems have c: "c + 1 \<le> 32" by simp
    note IH = Cons.IH[OF c, of "record_core c (mem (a + 3)) s"]
    consider "j < c" | "j = c" | "c < j" by linarith
    then show ?thesis
    proof cases
      case 1
      then show ?thesis using False IH by (simp add: record_core_fields)
    next
      case 2
      then show ?thesis using False IH c by (simp add: record_core_fields)
    next
      case 3
      then have "nat (j - c) = Suc (nat (j - (c + 1)))" by simp
      then show ?thesis using False IH 3 by (simp add: record_core_fields)
    qed
  qed
qed

lemma madt_walk_returns_not_stuck:
  assumes "madt_walk mem limit entry s cores = Some r"
  shows "\<not> (entry < limit \<and> mem (entry + 1) = 0 \<and> \<not> lapic_enabled_at mem entry)"
  using assms
proof (induction mem limit entry s cores r rule: madt_walk.raw_induct[rotated 1, consumes 1])
  case (1 madt_walk mem limit entry s cores r)
  show ?case
  proof
    assume st: "entry < limit \<and> mem (entry + 1) = 0 \<and> \<not> lapic_enabled_at mem entry"
    then have "madt_next mem entry = entry" by (simp add: madt_next_def)
    with st 1(2) have "madt_walk mem limit entry s cores = Some r" by simp
    from 1(1)[OF this] st show False by blast
  qed
qed

lemma madt_walk_zero_length_enabled:
  assumes "entry < limit" "mem (entry + 1) = 0" "lapic_enabled_at mem entry" "cores \<le> 32"
  shows "\<exists>s'. madt_walk mem limit entry s cores = Some (s', 32, True)"
  using assms(4)
proof (induction "nat (32 - cores)" arbitrary: s cores)
  case 0
  then have "cores = 32" by simp
  then show ?case using assms(1,3) by (subst madt_walk.simps) simp
next
  case (Suc n)
  then have ne: "cores \<noteq> 32" and le: "cores + 1 \<le> 32" and n: "n = nat (32 - (cores + 1))" by auto
  have nx: "madt_next mem entry = entry" using assms(2) by (simp add: madt_next_def)
  from Suc.hyps(1)[OF n le, of "record_core cores (mem (entry + 3)) s"]
  show ?case using assms(1,3) ne by (subst madt_walk.simps) (simp add: nx)
qed

lemma example_madt_entries:
  "madt_entry_list example_memory 0xE0250 0xE022C = [0xE022C, 0xE0234, 0xE0240, 0xE0248]"
  by (simp add: madt_entry_list.simps madt_next_def example_memory_def place_def
      example_low_def example_rsdp_def example_rsdt_def example_madt_def zero_memory_def)

text \<open>
  C10. The walk over the entries of a MADT steps from an entry to the address
  \<open>entry + entry[1]\<close>. If every entry of the table has a length byte of at least 1, the
  walk returns. The condition cannot be dropped: a length byte of 0 leaves the entry
  pointer where it is, and on such an entry that is not an enabled processor entry the
  walk never returns. (On an enabled processor entry of length 0 the walk counts the same
  entry until \<open>cores\<close> is 32 and leaves through \<^verbatim>\<open>goto _toomany\<close>; \<open>madt_walk_zero_length_enabled\<close>.)
\<close>

theorem madt_walk_termination:
  "((\<forall>a \<in> set (madt_entry_list mem limit entry). 1 \<le> unat (mem (a + 1))) \<longrightarrow>
      (\<exists>r. madt_walk mem limit entry s cores = Some r)) \<and>
   (entry < limit \<and> \<not> lapic_enabled_at mem entry \<longrightarrow>
      madt_walk mem limit entry s cores =
        madt_walk mem limit (entry + unat (mem (entry + 1))) s cores) \<and>
   (mem (entry + 1) = 0 \<longrightarrow> entry + unat (mem (entry + 1)) = entry) \<and>
   (entry < limit \<and> mem (entry + 1) = 0 \<and> \<not> lapic_enabled_at mem entry \<longrightarrow>
      madt_walk mem limit entry s cores = None)"
proof (intro conjI impI)
  assume "\<forall>a \<in> set (madt_entry_list mem limit entry). 1 \<le> unat (mem (a + 1))"
  then have "\<forall>a \<in> set (madt_entry_list mem limit entry). mem (a + 1) \<noteq> 0" by auto
  from madt_walk_refines[OF this] show "\<exists>r. madt_walk mem limit entry s cores = Some r" by blast
next
  assume "entry < limit \<and> \<not> lapic_enabled_at mem entry"
  then show "madt_walk mem limit entry s cores =
        madt_walk mem limit (entry + unat (mem (entry + 1))) s cores"
    by (subst madt_walk.simps) (simp add: madt_next_def)
next
  assume "mem (entry + 1) = 0"
  then show "entry + unat (mem (entry + 1)) = entry" by simp
next
  assume st: "entry < limit \<and> mem (entry + 1) = 0 \<and> \<not> lapic_enabled_at mem entry"
  show "madt_walk mem limit entry s cores = None"
  proof (cases "madt_walk mem limit entry s cores")
    case (Some r)
    from madt_walk_returns_not_stuck[OF this] st show ?thesis by blast
  qed simp
qed

theorem madt_walk_termination_witness:
  "(\<exists>r. madt_walk example_memory 0xE0250 0xE022C (initial_state example_memory) 0 = Some r) \<and>
   madt_walk zero_memory 8 0 (initial_state zero_memory) 0 = None"
  using madt_walk_termination[of example_memory "0xE0250" "0xE022C" "initial_state example_memory" 0]
    madt_walk_termination[of zero_memory 8 0 "initial_state zero_memory" 0]
  by (simp add: example_madt_entries)
     (simp add: example_memory_def place_def example_low_def example_rsdp_def example_rsdt_def example_madt_def
        zero_memory_def lapic_enabled_at_def)

section \<open>Properties of the AP entry point\<close>

lemma load_processor_info_frame:
  "load_processor_info e core s =
     s\<lparr>processor_local_data := processor_local_data (load_processor_info e core s)\<rparr>"
  by (simp add: load_processor_info_def Let_def upd_local_def)

lemma load_processor_info_fields:
  "cpu_id (processor_local_data (load_processor_info e core s) j) = cpu_id (processor_local_data s j)"
  "lapic_id (processor_local_data (load_processor_info e core s) j) = lapic_id (processor_local_data s j)"
  "kernel_idle_task (processor_local_data (load_processor_info e core s) j) =
     kernel_idle_task (processor_local_data s j)"
  "current_process (processor_local_data (load_processor_info e core s) j) =
     current_process (processor_local_data s j)"
  by (simp_all add: load_processor_info_def Let_def upd_local_def)

lemma load_processor_info_globals:
  "phys (load_processor_info e core s) = phys s"
  "processor_count (load_processor_info e core s) = processor_count s"
  "lapic_final (load_processor_info e core s) = lapic_final s"
  "klog (load_processor_info e core s) = klog s"
  "trace (load_processor_info e core s) = trace s"
  "lapic_reads (load_processor_info e core s) = lapic_reads s"
  "ap_current (load_processor_info e core s) = ap_current s"
  by (subst load_processor_info_frame, simp)+

text \<open>
  C5, as the code has it. On the AP whose index is \<open>_ap_current\<close>, \<^verbatim>\<open>ap_main\<close> calls
  \<^verbatim>\<open>spawn_kidle\<close> once, with the constant argument 0 (not with the \<open>cpu_id\<close> of the
  core), and the task it returns is both \<open>kernel_idle_task\<close> and \<open>current_process\<close> of
  that core's descriptor when the scheduler is entered. The whole trace of the call is
  given.
\<close>

theorem ap_main_idle_task:
  "trace (ap_main e s) =
     trace s @ [SetCoreBase (ap_current s), IdtApInstall, FpuInitialize, PatInitialize,
                MmioWrite (lapic_final s + 0x0F0) 0x127, SpawnKidle 0, SwitchNext] \<and>
   kernel_idle_task (processor_local_data (ap_main e s) (ap_current s)) =
     spawn_kidle e (ap_current s) 0 \<and>
   current_process (processor_local_data (ap_main e s) (ap_current s)) =
     spawn_kidle e (ap_current s) 0"
  by (simp add: ap_main_def Let_def load_processor_info_fields load_processor_info_globals
      emit_def printf_def upd_local_def)

theorem ap_main_idle_task_witness:
  "trace (ap_main example_env ap1_state) =
     [SetCoreBase 1, IdtApInstall, FpuInitialize, PatInitialize,
      MmioWrite 0xFEE000F0 0x127, SpawnKidle 0, SwitchNext] \<and>
   kernel_idle_task (processor_local_data (ap_main example_env ap1_state) 1) = 101 \<and>
   current_process (processor_local_data (ap_main example_env ap1_state) 1) = 101"
  using ap_main_idle_task[of example_env ap1_state]
  by (simp add: ap1_state_def initial_state_def example_env_def)

text \<open>
  C5 as the specification words it fails on every AP: the core with \<open>cpu_id\<close> 1 calls \<^verbatim>\<open>spawn_kidle(0)\<close>, and
  never \<^verbatim>\<open>spawn_kidle(1)\<close>.
\<close>

theorem ap_main_spawn_argument_counterexample:
  "ap_current ap1_state = 1 \<and>
   cpu_id (processor_local_data ap1_state (ap_current ap1_state)) = 1 \<and>
   SpawnKidle (cpu_id (processor_local_data ap1_state (ap_current ap1_state)))
     \<notin> set (trace (ap_main example_env ap1_state)) \<and>
   SpawnKidle 0 \<in> set (trace (ap_main example_env ap1_state))"
  by (simp add: ap_main_def Let_def load_processor_info_globals emit_def printf_def upd_local_def
      ap1_state_def initial_state_def initial_locals_def)

section \<open>Properties of the AP handshake\<close>

lemma ap_start_keeps_refl: "ap_start_keeps e s s"
  by (simp add: ap_start_keeps_def)

lemma ap_start_keeps_trans:
  assumes "ap_start_keeps e s t" "ap_start_keeps e t u"
  shows "ap_start_keeps e s u"
proof -
  from assms obtain xs xs' ys ys' where
    l: "klog t = klog s @ xs" "set xs \<subseteq> {Printf ''smp: lapic id does not match\<newline>''}"
       "klog u = klog t @ xs'" "set xs' \<subseteq> {Printf ''smp: lapic id does not match\<newline>''}"
    and t: "trace t = trace s @ ys" "trace u = trace t @ ys'"
    unfolding ap_start_keeps_def by blast
  have "klog u = klog s @ (xs @ xs') \<and> set (xs @ xs') \<subseteq> {Printf ''smp: lapic id does not match\<newline>''}"
    using l by simp
  moreover have "trace u = trace s @ (ys @ ys')" using t by simp
  ultimately show ?thesis
    using assms unfolding ap_start_keeps_def by (metis (no_types, lifting))
qed

lemma ipi_poll_frame:
  assumes "ipi_poll e s = Some s'"
  shows "s' = s\<lparr>trace := trace s', lapic_reads := lapic_reads s'\<rparr> \<and> (\<exists>ys. trace s' = trace s @ ys)"
  using assms
proof (induction e s s' rule: ipi_poll.raw_induct[rotated 1, consumes 1])
  case (1 ipi_poll e s s')
  let ?s1 = "snd (lapic_read e 0x300 (emit Pause s))"
  have s1: "?s1 = s\<lparr>trace := trace ?s1, lapic_reads := lapic_reads ?s1\<rparr>"
    "trace ?s1 = trace s @ [Pause, MmioRead (lapic_final s + 0x300) (fst (lapic_read e 0x300 (emit Pause s)))]"
    by (simp_all add: lapic_read_def emit_def Let_def)
  show ?case
  proof (cases "fst (lapic_read e 0x300 (emit Pause s)) AND push_bit 12 1 \<noteq> 0")
    case True
    then have "ipi_poll e ?s1 = Some s'" using 1(2) by simp
    from 1(1)[OF this] obtain ys where
      a: "s' = ?s1\<lparr>trace := trace s', lapic_reads := lapic_reads s'\<rparr>" and b: "trace s' = trace ?s1 @ ys"
      by blast
    have "s' = s\<lparr>trace := trace s', lapic_reads := lapic_reads s'\<rparr>"
      by (subst a, subst s1(1)) simp
    moreover have "trace s' = trace s @ ([Pause, MmioRead (lapic_final s + 0x300)
        (fst (lapic_read e 0x300 (emit Pause s)))] @ ys)"
      using b s1(2) by simp
    ultimately show ?thesis by blast
  next
    case False
    then have "s' = ?s1" using 1(2) by simp
    then show ?thesis using s1 by metis
  qed
qed

lemma lapic_send_ipi_frame:
  assumes "lapic_send_ipi e i v s = Some s'"
  shows "s' = s\<lparr>trace := trace s', lapic_reads := lapic_reads s'\<rparr> \<and> (\<exists>ys. trace s' = trace s @ ys)"
proof -
  let ?s2 = "lapic_write 0x300 v (lapic_write 0x310 (push_bit 24 (word_of_int i)) s)"
  have s2: "?s2 = s\<lparr>trace := trace ?s2\<rparr>"
    "trace ?s2 = trace s @ [MmioWrite (lapic_final s + 0x310) (push_bit 24 (word_of_int i)),
        MmioWrite (lapic_final s + 0x300) v]"
    by (simp_all add: lapic_write_def emit_def)
  from assms have "ipi_poll e ?s2 = Some s'" by (simp add: lapic_send_ipi_def)
  from ipi_poll_frame[OF this] obtain ys where
    a: "s' = ?s2\<lparr>trace := trace s', lapic_reads := lapic_reads s'\<rparr>" and b: "trace s' = trace ?s2 @ ys"
    by blast
  have "s' = s\<lparr>trace := trace s', lapic_reads := lapic_reads s'\<rparr>"
    by (subst a, subst s2(1)) simp
  moreover have "trace s' = trace s @ ([MmioWrite (lapic_final s + 0x310) (push_bit 24 (word_of_int i)),
        MmioWrite (lapic_final s + 0x300) v] @ ys)"
    using b s2(2) by simp
  ultimately show ?thesis by blast
qed

lemma lapic_send_ipi_keeps:
  assumes "lapic_send_ipi e i v s = Some s'"
  shows "ap_start_keeps e s s'"
proof -
  from lapic_send_ipi_frame[OF assms] obtain ys where
    a: "s' = s\<lparr>trace := trace s', lapic_reads := lapic_reads s'\<rparr>" and b: "trace s' = trace s @ ys"
    by blast
  have "processor_count s' = processor_count s" "lapic_final s' = lapic_final s"
    "processor_local_data s' = processor_local_data s" "phys s' = phys s" "klog s' = klog s"
    by (subst a, simp)+
  with b show ?thesis by (simp add: ap_start_keeps_def)
qed

lemma ap_main_keeps: "ap_start_keeps e s (ap_main e s)"
  unfolding ap_start_keeps_def
  by (simp add: ap_main_def Let_def load_processor_info_fields load_processor_info_globals
      emit_def printf_def upd_local_def)

lemma wait_for_ap_keeps:
  assumes "wait_for_ap e s = Some s'"
  shows "ap_start_keeps e s s'"
proof -
  from assms obtain n where
    s': "s' = (ap_main e s)\<lparr>trace := trace (ap_main e s) @ replicate (Suc n) Pause\<rparr>"
    by (auto simp: wait_for_ap_def split: option.splits)
  have "ap_start_keeps e (ap_main e s) s'"
    unfolding s' by (simp add: ap_start_keeps_def)
  with ap_main_keeps[of e s] show ?thesis by (rule ap_start_keeps_trans)
qed

lemma start_ap_prefix_keeps:
  "ap_start_keeps e s
     (((emit (Valloc (kernel_stack_size e))
         (gdt_copy_to_trampoline e i (0x1000 + ap_bootstrap_gdtp e) (s\<lparr>ap_startup_flag := 0\<rparr>)))
       \<lparr>ap_stack_base := valloc e i + kernel_stack_size e\<rparr>)\<lparr>ap_current := i\<rparr>)"
  by (auto simp: ap_start_keeps_def gdt_copy_to_trampoline_def store_bytes_def emit_def)

lemma short_delay_keeps: "ap_start_keeps e s (short_delay n s)"
  by (simp add: ap_start_keeps_def short_delay_def emit_def)

lemma start_ap_keeps:
  assumes "start_ap e i s = Some s'"
  shows "ap_start_keeps e s s'"
proof -
  let ?s4 = "((emit (Valloc (kernel_stack_size e))
         (gdt_copy_to_trampoline e i (0x1000 + ap_bootstrap_gdtp e) (s\<lparr>ap_startup_flag := 0\<rparr>)))
       \<lparr>ap_stack_base := valloc e i + kernel_stack_size e\<rparr>)\<lparr>ap_current := i\<rparr>"
  from assms obtain s5 s6 where
    a: "lapic_send_ipi e (lapic_id (processor_local_data ?s4 i)) 0x4500 ?s4 = Some s5" and
    b: "lapic_send_ipi e (lapic_id (processor_local_data s5 i)) 0x4601 (short_delay 5000 s5) = Some s6" and
    c: "wait_for_ap e s6 = Some s'"
    by (auto simp: start_ap_def Let_def split: option.splits)
  show ?thesis
    using start_ap_prefix_keeps[of e s i] lapic_send_ipi_keeps[OF a] short_delay_keeps[of e s5 5000]
      lapic_send_ipi_keeps[OF b] wait_for_ap_keeps[OF c]
    by (meson ap_start_keeps_trans)
qed

lemma ap_bringup_keeps:
  assumes "ap_bringup e cores i s = Some s'"
  shows "ap_start_keeps e s s'"
  using assms
proof (induction e cores i s rule: ap_bringup.induct)
  case (1 e cores i s)
  show ?case
  proof (cases "i < cores")
    case False
    with "1.prems" have "s' = s" by (subst (asm) ap_bringup.simps) simp
    then show ?thesis by (simp add: ap_start_keeps_refl)
  next
    case True
    with "1.prems" obtain s1 where a: "start_ap e i s = Some s1"
      and b: "ap_bringup e cores (i + 1) s1 = Some s'"
      by (subst (asm) ap_bringup.simps) (auto split: option.splits)
    from start_ap_keeps[OF a] "1.IH"[OF True a b] show ?thesis by (rule ap_start_keeps_trans)
  qed
qed

section \<open>Properties of the trampoline page\<close>








section \<open>When the bring-up returns, and the example machine\<close>

lemma locate_rsdp_returns: "\<exists>r. locate_rsdp e mem = Some r"
proof -
  let ?scan = "fst (select_scan e)" and ?top = "snd (select_scan e)"
  let ?P = "\<lambda>k. unat ?scan + 16 * k < unat ?top \<and> rsd_ptr_at mem (unat ?scan + 16 * k)"
  show ?thesis
  proof (cases "\<exists>k. ?P k")
    case False
    then have "\<forall>k. unat ?scan + 16 * k < unat ?top \<longrightarrow> \<not> rsd_ptr_at mem (unat ?scan + 16 * k)"
      by blast
    from rsdp_scan_miss[OF select_scan_regular[of e] this] show ?thesis
      unfolding locate_rsdp_def by blast
  next
    case True
    then obtain k where k: "?P k" and least: "\<forall>j<k. \<not> ?P j"
      using exists_least_iff[of ?P] by blast
    have "\<forall>j<k. \<not> rsd_ptr_at mem (unat ?scan + 16 * j)"
    proof (intro allI impI)
      fix j assume "j < k"
      with least have "\<not> ?P j" by blast
      moreover have "unat ?scan + 16 * j < unat ?top" using k \<open>j < k\<close> by simp
      ultimately show "\<not> rsd_ptr_at mem (unat ?scan + 16 * j)" by blast
    qed
    from rsdp_scan_first_hit[of ?scan k ?top mem] k this show ?thesis
      unfolding locate_rsdp_def by blast
  qed
qed

lemma lapic_send_ipi_returns:
  assumes "lapic_settles e"
  shows "\<exists>s'. lapic_send_ipi e i v s = Some s'"
proof -
  let ?P = "\<lambda>k. lapic_mmio e (lapic_reads s + k) (lapic_final s + 0x300) AND 0x1000 = 0"
  from assms have "\<exists>k. ?P k" unfolding lapic_settles_def by blast
  then obtain n where n: "?P n" and least: "\<forall>k<n. \<not> ?P k"
    using exists_least_iff[of ?P] by blast
  let ?s2 = "lapic_write 0x300 v (lapic_write 0x310 (push_bit 24 (word_of_int i)) s)"
  have f: "lapic_reads ?s2 = lapic_reads s" "lapic_final ?s2 = lapic_final s"
    by (simp_all add: lapic_write_def emit_def)
  have "\<exists>s'. ipi_poll e ?s2 = Some s'"
    by (rule exI, rule ipi_poll_clears[of n]) (use n least in \<open>simp_all add: f\<close>)
  then show ?thesis by (simp add: lapic_send_ipi_def)
qed

lemma start_ap_returns:
  assumes "lapic_settles e" "ap_ack_spins e i \<noteq> None"
  shows "\<exists>s'. start_ap e i s = Some s'"
proof -
  let ?s4 = "((emit (Valloc (kernel_stack_size e))
         (gdt_copy_to_trampoline e i (0x1000 + ap_bootstrap_gdtp e) (s\<lparr>ap_startup_flag := 0\<rparr>)))
       \<lparr>ap_stack_base := valloc e i + kernel_stack_size e\<rparr>)\<lparr>ap_current := i\<rparr>"
  from lapic_send_ipi_returns[OF assms(1)] obtain s5 where
    a: "lapic_send_ipi e (lapic_id (processor_local_data ?s4 i)) 0x4500 ?s4 = Some s5" by blast
  from lapic_send_ipi_returns[OF assms(1)] obtain s6 where
    b: "lapic_send_ipi e (lapic_id (processor_local_data s5 i)) 0x4601 (short_delay 5000 s5) = Some s6"
    by blast
  from lapic_send_ipi_frame[OF a] have "s5 = ?s4\<lparr>trace := trace s5, lapic_reads := lapic_reads s5\<rparr>"
    by blast
  then have "ap_current s5 = i" by (metis (no_types, lifting) kstate.select_convs(7) kstate.surjective kstate.update_convs(7,9,10))
  moreover from lapic_send_ipi_frame[OF b]
  have "s6 = (short_delay 5000 s5)\<lparr>trace := trace s6, lapic_reads := lapic_reads s6\<rparr>" by blast
  then have "ap_current s6 = ap_current (short_delay 5000 s5)"
    by (metis (no_types, lifting) kstate.select_convs(7) kstate.surjective kstate.update_convs(9,10))
  ultimately have c: "ap_current s6 = i" by (simp add: short_delay_def emit_def)
  from assms(2) obtain n where "ap_ack_spins e i = Some n" by auto
  with c have "\<exists>s'. wait_for_ap e s6 = Some s'" by (simp add: wait_for_ap_def)
  with a b show ?thesis by (simp add: start_ap_def Let_def)
qed

lemma ap_bringup_returns:
  assumes "lapic_settles e" "\<forall>j. i \<le> j \<and> j < cores \<longrightarrow> ap_ack_spins e j \<noteq> None"
  shows "\<exists>s'. ap_bringup e cores i s = Some s'"
  using assms
proof (induction e cores i s rule: ap_bringup.induct)
  case (1 e cores i s)
  show ?case
  proof (cases "i < cores")
    case False
    then show ?thesis by (subst ap_bringup.simps) simp
  next
    case True
    with "1.prems" have "ap_ack_spins e i \<noteq> None" by simp
    from start_ap_returns[OF "1.prems"(1) this] obtain s1 where a: "start_ap e i s = Some s1" by blast
    have "\<forall>j. i + 1 \<le> j \<and> j < cores \<longrightarrow> ap_ack_spins e j \<noteq> None" using "1.prems"(2) by simp
    from "1.IH"[OF True a "1.prems"(1) this] show ?thesis
      by (subst ap_bringup.simps) (simp add: True a)
  qed
qed

lemma smp_bringup_returns:
  assumes "lapic_settles e" "aps_acknowledge e cores"
  shows "\<exists>s'. smp_bringup e cores s = Some s'"
proof -
  from assms(2) have "\<forall>j. 1 \<le> j \<and> j < cores \<longrightarrow> ap_ack_spins e j \<noteq> None"
    by (simp add: aps_acknowledge_def)
  from ap_bringup_returns[OF assms(1) this] obtain s' where
    "ap_bringup e cores 1 (trampoline_install e (trampoline_save e s)) = Some s'" by blast
  then show ?thesis by (simp add: smp_bringup_def)
qed

lemma upt_0_20: "[0..<20] = [0, 1, 2, 3, 4, 5, 6, 7, 8, 9, 10, 11, 12, 13, 14, 15, 16, 17, 18, 19]"
  by (simp add: upt_rec)

lemmas example_bytes = example_memory_def place_def example_low_def example_rsdp_def
  example_rsdt_def example_madt_def zero_memory_def byte_of_def

lemmas bad_bytes = bad_checksum_memory_def place_def example_low_def bad_checksum_rsdp_def
  example_rsdt_def example_madt_def zero_memory_def byte_of_def

lemma std_select:
  assumes "standard_platform e"
  shows "select_scan e = (0xE0000, 0x100000)"
  using assms by (simp add: standard_platform_def select_scan_def)

lemma std_envs:
  "standard_platform example_env" "standard_platform nosmp_env"
  "standard_platform noacpichecksum_env"
  by (simp_all add: standard_platform_def example_env_def nosmp_env_def noacpichecksum_env_def
      args_present_def)

lemma example_locate:
  assumes "standard_platform e"
  shows "locate_rsdp e example_memory = Some (0xE0000, True)"
proof -
  have sel: "select_scan e = (0xE0000, 0x100000)" using assms by (rule std_select)
  show ?thesis
    unfolding locate_rsdp_def sel fst_conv snd_conv
    by (subst rsdp_scan.simps) (simp add: rsd_ptr_at_def example_bytes)
qed

lemma example_checksum:
  assumes "standard_platform e"
  shows "rsdp_checksum e example_memory 0xE0000 = 0"
  using assms by (simp add: rsdp_checksum_def standard_platform_def upt_0_20 example_bytes)

lemma example_rsdt_address:
  assumes "standard_platform e"
  shows "unat (read32 example_memory (0xE0000 + rsdp_rsdt_address e)) = 0xE0100"
  using assms by (simp add: read32_def standard_platform_def example_bytes)

lemma example_layout:
  assumes "standard_platform e"
  shows "rsdt_count e example_memory 0xE0100 = 1"
    "rsdt_pointer e example_memory 0xE0100 0 = 0xE0200"
    "apic_at example_memory 0xE0200"
    "madt_top e example_memory 0xE0200 = 0xE0250"
    "madt_entries e = 44"
    "ucast (read32 example_memory (0xE0200 + madt_lapic_addr e)) = (0xFEE00000 :: u64)"
  using assms
  by (simp_all add: rsdt_count_def rsdt_pointer_def apic_at_def madt_top_def read32_def
      standard_platform_def example_bytes)

lemma example_enabled:
  "filter (lapic_enabled_at example_memory) [0xE022C, 0xE0234, 0xE0240, 0xE0248] = [0xE022C, 0xE0248]"
  by (simp add: lapic_enabled_at_def example_bytes)


lemma example_apic_ids: "example_memory (0xE022C + 3) = 0" "example_memory (0xE0248 + 3) = 2"
  by (simp_all add: example_bytes)


lemma example_enabled_lapics:
  assumes "standard_platform e"
  shows "enabled_lapics e example_memory 0xE0100 0 = [0xE022C, 0xE0248]"
    and "madt_lengths_positive e example_memory 0xE0100 0"
proof -
  have tabs: "rsdt_apic_tables e example_memory 0xE0100 0 = [0xE0200]"
    by (simp add: rsdt_apic_tables_def example_layout[OF assms] upt_rec)
  have eq: "(0xE0200 :: nat) + 44 = 0xE022C" by simp
  have "madt_enabled_lapics e example_memory 0xE0200 = [0xE022C, 0xE0248]"
    by (simp only: madt_enabled_lapics_def example_layout(4,5)[OF assms] eq
        example_madt_entries example_enabled)
  then show "enabled_lapics e example_memory 0xE0100 0 = [0xE022C, 0xE0248]"
    by (simp add: enabled_lapics_def tabs)
  have "\<forall>a \<in> set (madt_entry_list example_memory 0xE0250 0xE022C). 1 \<le> unat (example_memory (a + 1))"
    by (simp add: example_madt_entries) (simp add: example_bytes)
  then show "madt_lengths_positive e example_memory 0xE0100 0"
    by (simp add: madt_lengths_positive_def tabs example_layout[OF assms])
qed

lemma bad_madt_entries:
  "madt_entry_list bad_checksum_memory 0xE0250 0xE022C = [0xE022C, 0xE0234, 0xE0240, 0xE0248]"
  by (simp add: madt_entry_list.simps madt_next_def bad_bytes)

lemma bad_locate:
  assumes "standard_platform e"
  shows "locate_rsdp e bad_checksum_memory = Some (0xE0000, True)"
proof -
  have sel: "select_scan e = (0xE0000, 0x100000)" using assms by (rule std_select)
  show ?thesis
    unfolding locate_rsdp_def sel fst_conv snd_conv
    by (subst rsdp_scan.simps) (simp add: rsd_ptr_at_def bad_bytes)
qed

lemma bad_checksum:
  assumes "standard_platform e"
  shows "rsdp_checksum e bad_checksum_memory 0xE0000 = 0x42"
  using assms by (simp add: rsdp_checksum_def standard_platform_def upt_0_20 bad_bytes)

lemma bad_rsdt_address:
  assumes "standard_platform e"
  shows "unat (read32 bad_checksum_memory (0xE0000 + rsdp_rsdt_address e)) = 0xE0100"
  using assms by (simp add: read32_def standard_platform_def bad_bytes)

lemma bad_layout:
  assumes "standard_platform e"
  shows "rsdt_count e bad_checksum_memory 0xE0100 = 1"
    "rsdt_pointer e bad_checksum_memory 0xE0100 0 = 0xE0200"
    "apic_at bad_checksum_memory 0xE0200"
    "madt_top e bad_checksum_memory 0xE0200 = 0xE0250"
    "madt_entries e = 44"
    "ucast (read32 bad_checksum_memory (0xE0200 + madt_lapic_addr e)) = (0xFEE00000 :: u64)"
  using assms
  by (simp_all add: rsdt_count_def rsdt_pointer_def apic_at_def madt_top_def read32_def
      standard_platform_def bad_bytes)

lemma bad_enabled:
  "filter (lapic_enabled_at bad_checksum_memory) [0xE022C, 0xE0234, 0xE0240, 0xE0248] = [0xE022C, 0xE0248]"
  by (simp add: lapic_enabled_at_def bad_bytes)

lemma bad_lengths:
  "\<forall>a \<in> set (madt_entry_list bad_checksum_memory 0xE0250 0xE022C). bad_checksum_memory (a + 1) \<noteq> 0"
  by (simp add: bad_madt_entries) (simp add: bad_bytes)

lemma bad_apic_ids: "bad_checksum_memory (0xE022C + 3) = 0" "bad_checksum_memory (0xE0248 + 3) = 2"
  by (simp_all add: bad_bytes)

lemma bad_tables:
  assumes "standard_platform e"
  shows "rsdt_walk e bad_checksum_memory 0xE0100 0 s 0 0 =
     Some (record_core 1 2 (record_core 0 0 s), 2, 0xFEE00000)"
proof -
  have "madt_walk bad_checksum_memory 0xE0250 0xE022C s 0 =
      Some (assign_cores bad_checksum_memory [0xE022C, 0xE0248] s 0)"
    using madt_walk_refines[OF bad_lengths, of s 0]
    by (simp only: bad_madt_entries bad_enabled)
  then have mw: "madt_walk bad_checksum_memory 0xE0250 0xE022C s 0 =
      Some (record_core 1 2 (record_core 0 0 s), 2, False)"
    using bad_apic_ids by simp
  show ?thesis
    by (subst rsdt_walk.simps, subst rsdt_walk.simps) (simp add: bad_layout[OF assms] mw)
qed

lemma bad_enabled_lapics:
  assumes "standard_platform e"
  shows "enabled_lapics e bad_checksum_memory 0xE0100 0 = [0xE022C, 0xE0248]"
    and "madt_lengths_positive e bad_checksum_memory 0xE0100 0"
proof -
  have tabs: "rsdt_apic_tables e bad_checksum_memory 0xE0100 0 = [0xE0200]"
    by (simp add: rsdt_apic_tables_def bad_layout[OF assms] upt_rec)
  have eq: "(0xE0200 :: nat) + 44 = 0xE022C" by simp
  have "madt_enabled_lapics e bad_checksum_memory 0xE0200 = [0xE022C, 0xE0248]"
    by (simp only: madt_enabled_lapics_def bad_layout(4,5)[OF assms] eq
        bad_madt_entries bad_enabled)
  then show "enabled_lapics e bad_checksum_memory 0xE0100 0 = [0xE022C, 0xE0248]"
    by (simp add: enabled_lapics_def tabs)
  have "\<forall>a \<in> set (madt_entry_list bad_checksum_memory 0xE0250 0xE022C). 1 \<le> unat (bad_checksum_memory (a + 1))"
    by (simp add: bad_madt_entries) (simp add: bad_bytes)
  then show "madt_lengths_positive e bad_checksum_memory 0xE0100 0"
    by (simp add: madt_lengths_positive_def tabs bad_layout[OF assms])
qed

lemma example_settles:
  assumes "lapic_mmio e = lapic_mmio example_env"
  shows "lapic_settles e"
  unfolding lapic_settles_def
proof (intro allI)
  fix n :: nat and a :: u64
  have "(n + (2 + 2 * n)) mod 3 = 2" by presburger
  then have "lapic_mmio e (n + (2 + 2 * n)) a AND 0x1000 = 0"
    by (simp add: assms example_env_def)
  then show "\<exists>k. lapic_mmio e (n + k) a AND 0x1000 = 0" by blast
qed

lemma example_acknowledge:
  assumes "ap_ack_spins e = ap_ack_spins example_env"
  shows "aps_acknowledge e cores"
  by (simp add: aps_acknowledge_def assms example_env_def)

lemma example_hardware:
  "lapic_settles example_env" "aps_acknowledge example_env cores"
  "lapic_settles noacpichecksum_env" "aps_acknowledge noacpichecksum_env cores"
  by (simp_all add: example_settles example_acknowledge noacpichecksum_env_def)

lemma example_args:
  "\<not> args_present example_env ''nosmp''" "\<not> args_present example_env ''noacpichecksum''"
  "args_present nosmp_env ''nosmp''" "\<not> args_present nosmp_env ''noacpichecksum''"
  "\<not> args_present noacpichecksum_env ''nosmp''"
  "args_present noacpichecksum_env ''noacpichecksum''"
  by (simp_all add: args_present_def example_env_def nosmp_env_def noacpichecksum_env_def)




section \<open>Properties of the discovery entry point\<close>

lemma smp_bringup_keeps:
  assumes "smp_bringup e cores s = Some s'"
  shows "processor_count s' = processor_count s \<and> lapic_final s' = lapic_final s \<and>
         (\<forall>j. cpu_id (processor_local_data s' j) = cpu_id (processor_local_data s j) \<and>
              lapic_id (processor_local_data s' j) = lapic_id (processor_local_data s j)) \<and>
         (\<exists>xs. klog s' = klog s @ xs \<and> Printf ''smp: too many cores\<newline>'' \<notin> set xs)"
proof -
  let ?s2 = "trampoline_install e (trampoline_save e s)"
  from assms obtain s3 where loop: "ap_bringup e cores 1 ?s2 = Some s3"
    and s': "s' = dprintf ''smp: enabled with %d cores\<newline>'' cores (trampoline_restore e s3)"
    by (auto simp: smp_bringup_def split: option.splits)
  from ap_bringup_keeps[OF loop] obtain xs where
    k: "processor_count s3 = processor_count ?s2" "lapic_final s3 = lapic_final ?s2"
       "\<forall>j. cpu_id (processor_local_data s3 j) = cpu_id (processor_local_data ?s2 j) \<and>
            lapic_id (processor_local_data s3 j) = lapic_id (processor_local_data ?s2 j)"
       "klog s3 = klog ?s2 @ xs" "set xs \<subseteq> {Printf ''smp: lapic id does not match\<newline>''}"
    unfolding ap_start_keeps_def by blast
  have s2: "processor_count ?s2 = processor_count s" "lapic_final ?s2 = lapic_final s"
    "processor_local_data ?s2 = processor_local_data s" "klog ?s2 = klog s"
    by (simp_all add: trampoline_install_def trampoline_save_def store_bytes_def memcpy_phys_def emit_def)
  have r: "processor_count s' = processor_count s3" "lapic_final s' = lapic_final s3"
    "processor_local_data s' = processor_local_data s3"
    "klog s' = klog s3 @ [Dprintf ''smp: enabled with %d cores\<newline>'' cores]"
    by (simp_all add: s' dprintf_def trampoline_restore_def memcpy_phys_def emit_def)
  have "klog s' = klog s @ (xs @ [Dprintf ''smp: enabled with %d cores\<newline>'' cores])"
    using r(4) k(4) s2(4) by simp
  moreover have "Printf ''smp: too many cores\<newline>'' \<notin> set (xs @ [Dprintf ''smp: enabled with %d cores\<newline>'' cores])"
    using k(5) by auto
  ultimately have "\<exists>xs. klog s' = klog s @ xs \<and> Printf ''smp: too many cores\<newline>'' \<notin> set xs"
    by blast
  with k(1-3) s2(1-3) r(1-3) show ?thesis by simp
qed

lemma smp_parse_and_start_total:
  assumes wf: "madt_lengths_positive e (phys s) rsdt 0"
      and rsdt: "rsdt = unat (read32 (phys s) (rsdp + rsdp_rsdt_address e))"
      and es: "es = enabled_lapics e (phys s) rsdt 0"
      and hw: "lapic_settles e" "aps_acknowledge e (min (int (length es)) 32)"
  shows "\<exists>out s'. smp_parse_and_start e rsdp s = Some (out, s') \<and>
           (out = NoLapicBase \<or> out = OneCore \<or> out = Enabled) \<and>
           processor_count s' = min (int (length es)) 32 \<and>
           (\<forall>j. cpu_id (processor_local_data s' j) =
                  (if 0 \<le> j \<and> j < min (int (length es)) 32 then j
                   else cpu_id (processor_local_data s j)) \<and>
                lapic_id (processor_local_data s' j) =
                  (if 0 \<le> j \<and> j < min (int (length es)) 32
                   then uint (phys s (es ! nat j + 3))
                   else lapic_id (processor_local_data s j))) \<and>
           (\<exists>xs. klog s' = klog s @ xs \<and>
                 (Printf ''smp: too many cores\<newline>'' \<in> set xs \<longleftrightarrow> 32 < int (length es)))"
proof -
  let ?K = "int (length es)"
  let ?a = "assign_cores (phys s) es s 0"
  let ?s1 = "fst ?a"
  let ?c = "min ?K 32"
  from rsdt_walk_refines[OF wf, of s 0 0] obtain lb where
    w: "rsdt_walk e (phys s) rsdt 0 s 0 0 = Some (?s1, fst (snd ?a), lb)"
    unfolding es by blast
  have c: "fst (snd ?a) = ?c" using assign_cores_count[of 0 "phys s" es s] by simp
  have d: "\<forall>j. processor_local_data ?s1 j =
     (if 0 \<le> j \<and> j < ?c
      then (processor_local_data s j)\<lparr>cpu_id := j, lapic_id := uint (phys s (es ! nat j + 3))\<rparr>
      else processor_local_data s j)"
    using assign_cores_descriptors[of 0 "phys s" es s] by simp
  have l: "klog ?s1 = klog s @ (if 32 < ?K then [Printf ''smp: too many cores\<newline>''] else [])"
    using assign_cores_log[of 0 "phys s" es s] by simp
  let ?s2 = "?s1\<lparr>processor_count := ?c\<rparr>"
  let ?s3 = "(emit (MapMmioRegion lb 0x1000) ?s2)\<lparr>lapic_final := mmu_map_mmio_region e lb 0x1000\<rparr>"
  have f2: "processor_count ?s2 = ?c" "processor_local_data ?s2 = processor_local_data ?s1"
    "klog ?s2 = klog ?s1" by simp_all
  have f3: "processor_count ?s3 = ?c" "processor_local_data ?s3 = processor_local_data ?s1"
    "klog ?s3 = klog ?s1" by (simp_all add: emit_def)
  let ?Q = "\<lambda>s'. processor_count s' = ?c \<and>
           (\<forall>j. cpu_id (processor_local_data s' j) =
                  (if 0 \<le> j \<and> j < ?c then j else cpu_id (processor_local_data s j)) \<and>
                lapic_id (processor_local_data s' j) =
                  (if 0 \<le> j \<and> j < ?c then uint (phys s (es ! nat j + 3))
                   else lapic_id (processor_local_data s j))) \<and>
           (\<exists>xs. klog s' = klog s @ xs \<and>
                 (Printf ''smp: too many cores\<newline>'' \<in> set xs \<longleftrightarrow> 32 < ?K))"
  have q1: "?Q t" if t: "processor_count t = ?c" "\<forall>j. cpu_id (processor_local_data t j) =
      cpu_id (processor_local_data ?s1 j) \<and> lapic_id (processor_local_data t j) =
      lapic_id (processor_local_data ?s1 j)"
      "\<exists>xs. klog t = klog ?s1 @ xs \<and> Printf ''smp: too many cores\<newline>'' \<notin> set xs" for t
  proof -
    from t(3) obtain xs where xs: "klog t = klog ?s1 @ xs"
      "Printf ''smp: too many cores\<newline>'' \<notin> set xs" by blast
    have "klog t = klog s @ ((if 32 < ?K then [Printf ''smp: too many cores\<newline>''] else []) @ xs)"
      using xs(1) l by simp
    moreover have "Printf ''smp: too many cores\<newline>'' \<in>
        set ((if 32 < ?K then [Printf ''smp: too many cores\<newline>''] else []) @ xs) \<longleftrightarrow> 32 < ?K"
      using xs(2) by simp
    ultimately have "\<exists>xs. klog t = klog s @ xs \<and>
        (Printf ''smp: too many cores\<newline>'' \<in> set xs \<longleftrightarrow> 32 < ?K)" by blast
    moreover have "\<forall>j. cpu_id (processor_local_data t j) =
                  (if 0 \<le> j \<and> j < ?c then j else cpu_id (processor_local_data s j)) \<and>
                lapic_id (processor_local_data t j) =
                  (if 0 \<le> j \<and> j < ?c then uint (phys s (es ! nat j + 3))
                   else lapic_id (processor_local_data s j))"
      using t(2) d by simp
    ultimately show ?thesis using t(1) by blast
  qed
  define cc where "cc = ?c"
  have w': "rsdt_walk e (phys s) (unat (read32 (phys s) (rsdp + rsdp_rsdt_address e))) 0 s 0 0 =
      Some (?s1, cc, lb)"
    using w c by (simp only: rsdt cc_def)
  let ?t2 = "?s1\<lparr>processor_count := cc\<rparr>"
  let ?t3 = "(emit (MapMmioRegion lb 0x1000) ?t2)\<lparr>lapic_final := mmu_map_mmio_region e lb 0x1000\<rparr>"
  have g2: "?t2 = ?s2" "?t3 = ?s3" by (simp_all only: cc_def)
  show ?thesis
  proof (cases "lb = 0")
    case True
    have "smp_parse_and_start e rsdp s = Some (NoLapicBase, ?t2)"
      by (simp add: smp_parse_and_start_def w' True Let_def)
    moreover have "?Q ?s2" by (rule q1) (simp_all add: f2)
    ultimately show ?thesis unfolding g2 by blast
  next
    case lb: False
    show ?thesis
    proof (cases "cc \<le> 1")
      case True
      have "smp_parse_and_start e rsdp s = Some (OneCore, ?t3)"
        by (simp add: smp_parse_and_start_def w' lb True Let_def)
      moreover have "?Q ?s3" by (rule q1) (simp_all add: f3)
      ultimately show ?thesis unfolding g2 by blast
    next
      case False
      from smp_bringup_returns[OF hw, of ?s3] obtain s' where
        b: "smp_bringup e cc ?t3 = Some s'" unfolding cc_def by blast
      have "smp_parse_and_start e rsdp s = Some (Enabled, s')"
        by (simp add: smp_parse_and_start_def w' lb False b Let_def)
      moreover have "?Q s'"
        by (rule q1) (use smp_bringup_keeps[OF b[unfolded g2]] f3 in simp_all)
      ultimately show ?thesis by blast
    qed
  qed
qed

lemma smp_initialize_accepts:
  assumes "locate_rsdp e (phys s) = Some (scan, True)"
      and "rsdp_checksum e (phys s) (unat scan) = 0 \<or> args_present e ''noacpichecksum''"
  shows "smp_initialize e s =
           (if args_present e ''nosmp'' then Some (NoSmp, load_processor_info e 0 s)
            else smp_parse_and_start e (unat scan) (load_processor_info e 0 s))"
  using assms by (auto simp: smp_initialize_def Let_def load_processor_info_globals)

lemmas crowded_bytes = crowded_memory_def place_def example_rsdp_def
  example_rsdt_def crowded_header_def zero_memory_def byte_of_def

lemma crowded_entry:
  assumes "i < 40"
  shows "crowded_memory (0xE022C + 8 * i) = 0"
    "crowded_memory (0xE022C + 8 * i + 1) = 8"
    "crowded_memory (0xE022C + 8 * i + 3) = of_nat i"
    "crowded_memory (0xE022C + 8 * i + 4) = 1"
  using assms by (simp_all add: crowded_memory_def)

lemma crowded_entries:
  assumes "i \<le> 40"
  shows "madt_entry_list crowded_memory 0xE036C (0xE022C + 8 * i) =
           map (\<lambda>j. 0xE022C + 8 * j) [i..<40]"
  using assms
proof (induction "40 - i" arbitrary: i)
  case 0
  then have "i = 40" by simp
  then show ?case by (subst madt_entry_list.simps) simp
next
  case (Suc n)
  then have i: "i < 40" and n: "n = 40 - Suc i" and le: "Suc i \<le> 40" by simp_all
  have nx: "madt_next crowded_memory (0xE022C + 8 * i) = 0xE022C + 8 * Suc i"
    using crowded_entry(2)[OF i] by (simp add: madt_next_def)
  have lt: "0xE022C + 8 * i < (0xE036C :: nat)" using i by simp
  have up: "[i..<40] = i # [Suc i..<40]" using i by (simp add: upt_conv_Cons)
  show ?case
    by (subst madt_entry_list.simps)
       (simp only: lt if_True crowded_entry(2)[OF i] nx Suc.hyps(1)[OF n le] up, simp)
qed

lemma crowded_all_enabled:
  "filter (lapic_enabled_at crowded_memory) (map (\<lambda>j. 0xE022C + 8 * j) [0..<40]) =
     map (\<lambda>j. 0xE022C + 8 * j) [0..<40]"
proof -
  have "lapic_enabled_at crowded_memory (0xE022C + 8 * j)" if "j < 40" for j
    using crowded_entry(1,4)[OF that] by (simp add: lapic_enabled_at_def)
  then have "\<forall>a \<in> set (map (\<lambda>j. 0xE022C + 8 * j) [0..<40]). lapic_enabled_at crowded_memory a"
    by (auto simp del: upt_Suc)
  then show ?thesis by (simp only: filter_True)
qed

lemma crowded_locate:
  assumes "standard_platform e"
  shows "locate_rsdp e crowded_memory = Some (0xE0000, True)"
proof -
  have sel: "select_scan e = (0xE0000, 0x100000)" using assms by (rule std_select)
  show ?thesis
    unfolding locate_rsdp_def sel fst_conv snd_conv
    by (subst rsdp_scan.simps) (simp add: rsd_ptr_at_def crowded_bytes)
qed

lemma crowded_checksum:
  assumes "standard_platform e"
  shows "rsdp_checksum e crowded_memory 0xE0000 = 0"
  using assms by (simp add: rsdp_checksum_def standard_platform_def upt_0_20 crowded_bytes)

lemma crowded_rsdt_address:
  assumes "standard_platform e"
  shows "unat (read32 crowded_memory (0xE0000 + rsdp_rsdt_address e)) = 0xE0100"
  using assms by (simp add: read32_def standard_platform_def crowded_bytes)

lemma crowded_layout:
  assumes "standard_platform e"
  shows "rsdt_count e crowded_memory 0xE0100 = 1"
    "rsdt_pointer e crowded_memory 0xE0100 0 = 0xE0200"
    "apic_at crowded_memory 0xE0200"
    "madt_top e crowded_memory 0xE0200 = 0xE036C"
    "madt_entries e = 44"
  using assms
  by (simp_all add: rsdt_count_def rsdt_pointer_def apic_at_def madt_top_def read32_def
      standard_platform_def crowded_bytes)

lemma crowded_enabled_lapics:
  assumes "standard_platform e"
  shows "enabled_lapics e crowded_memory 0xE0100 0 = map (\<lambda>j. 0xE022C + 8 * j) [0..<40]"
    and "madt_lengths_positive e crowded_memory 0xE0100 0"
proof -
  have tabs: "rsdt_apic_tables e crowded_memory 0xE0100 0 = [0xE0200]"
    by (simp add: rsdt_apic_tables_def crowded_layout[OF assms] upt_rec)
  have eq: "(0xE0200 :: nat) + 44 = 0xE022C + 8 * 0" by simp
  have l: "madt_entry_list crowded_memory 0xE036C (0xE0200 + 44) =
      map (\<lambda>j. 0xE022C + 8 * j) [0..<40]"
    unfolding eq by (rule crowded_entries) simp
  have "madt_enabled_lapics e crowded_memory 0xE0200 = map (\<lambda>j. 0xE022C + 8 * j) [0..<40]"
    by (simp only: madt_enabled_lapics_def crowded_layout(4,5)[OF assms] l crowded_all_enabled)
  then show "enabled_lapics e crowded_memory 0xE0100 0 = map (\<lambda>j. 0xE022C + 8 * j) [0..<40]"
    by (simp add: enabled_lapics_def tabs)
  have "1 \<le> unat (crowded_memory (0xE022C + 8 * j + 1))" if "j < 40" for j
    using crowded_entry(2)[OF that] by simp
  then have "\<forall>a \<in> set (map (\<lambda>j. 0xE022C + 8 * j) [0..<40]). 1 \<le> unat (crowded_memory (a + 1))"
    by (auto simp del: upt_Suc)
  moreover have "madt_entry_list crowded_memory 0xE036C 0xE022C =
      map (\<lambda>j. 0xE022C + 8 * j) [0..<40]" using l by simp
  ultimately show "madt_lengths_positive e crowded_memory 0xE0100 0"
    unfolding madt_lengths_positive_def tabs
    by (simp add: crowded_layout(4,5)[OF assms] del: upt_Suc)
qed

text \<open>
  C1, as the code has it: the count is right for well-formed tables only, and the
  condition is a hypothesis. Let every entry of the MADTs have a length byte of at least 1 and let
  \<open>es\<close> be their enabled processor-local APIC entries (type 0, flag bit 0 set), in table
  order, \<open>K\<close> of them. When the RSDP is found and accepted and \<^verbatim>\<open>nosmp\<close> is absent,
  \<^verbatim>\<open>smp_initialize\<close> returns (given a LAPIC that settles and APs that acknowledge) with
  \<open>processor_count = min K 32\<close>; descriptor \<open>j\<close> below that has \<open>cpu_id = j\<close> and the
  \<open>lapic_id\<close> found in byte 3 of the \<open>j\<close>-th enabled entry; the other descriptors keep
  theirs; and among the log lines of the call there is a "too many cores" line exactly
  when \<open>K > 32\<close>. An RSDT usually points to one MADT; if it points to several, their
  enabled entries are counted together.
\<close>

theorem madt_descriptors:
  assumes found: "locate_rsdp e (phys s) = Some (scan, True)"
      and gate: "rsdp_checksum e (phys s) (unat scan) = 0 \<or> args_present e ''noacpichecksum''"
      and smp: "\<not> args_present e ''nosmp''"
      and rsdt: "rsdt = unat (read32 (phys s) (unat scan + rsdp_rsdt_address e))"
      and es: "es = enabled_lapics e (phys s) rsdt 0"
      and K: "K = int (length es)"
      and wf: "madt_lengths_positive e (phys s) rsdt 0"
      and hw: "lapic_settles e" "aps_acknowledge e (min K 32)"
  shows "\<exists>out s'. smp_initialize e s = Some (out, s') \<and>
           processor_count s' = min K 32 \<and>
           (\<forall>j. 0 \<le> j \<and> j < min K 32 \<longrightarrow>
                cpu_id (processor_local_data s' j) = j \<and>
                lapic_id (processor_local_data s' j) = uint (phys s (es ! nat j + 3))) \<and>
           (\<forall>j. j < 0 \<or> min K 32 \<le> j \<longrightarrow>
                cpu_id (processor_local_data s' j) = cpu_id (processor_local_data s j) \<and>
                lapic_id (processor_local_data s' j) = lapic_id (processor_local_data s j)) \<and>
           (\<exists>xs. klog s' = klog s @ xs \<and>
                 (Printf ''smp: too many cores\<newline>'' \<in> set xs \<longleftrightarrow> 32 < K))"
proof -
  let ?s1 = "load_processor_info e 0 s"
  have p: "phys ?s1 = phys s" "klog ?s1 = klog s" by (simp_all add: load_processor_info_globals)
  have run: "smp_initialize e s = smp_parse_and_start e (unat scan) ?s1"
    using smp_initialize_accepts[OF found gate] smp by simp
  have wf1: "madt_lengths_positive e (phys ?s1) rsdt 0" using wf by (simp only: p)
  have rsdt1: "rsdt = unat (read32 (phys ?s1) (unat scan + rsdp_rsdt_address e))"
    using rsdt by (simp only: p)
  have es1: "es = enabled_lapics e (phys ?s1) rsdt 0" using es by (simp only: p)
  have hw2: "aps_acknowledge e (min (int (length es)) 32)" using hw(2) K by simp
  from smp_parse_and_start_total[OF wf1 rsdt1 es1 hw(1) hw2]
  obtain out s' xs where r: "smp_parse_and_start e (unat scan) ?s1 = Some (out, s')"
    and c: "processor_count s' = min K 32"
    and d: "\<forall>j. cpu_id (processor_local_data s' j) =
                  (if 0 \<le> j \<and> j < min K 32 then j else cpu_id (processor_local_data ?s1 j)) \<and>
                lapic_id (processor_local_data s' j) =
                  (if 0 \<le> j \<and> j < min K 32 then uint (phys ?s1 (es ! nat j + 3))
                   else lapic_id (processor_local_data ?s1 j))"
    and l: "klog s' = klog ?s1 @ xs"
       "Printf ''smp: too many cores\<newline>'' \<in> set xs \<longleftrightarrow> 32 < K"
    unfolding K by blast
  have "\<forall>j. 0 \<le> j \<and> j < min K 32 \<longrightarrow>
                cpu_id (processor_local_data s' j) = j \<and>
                lapic_id (processor_local_data s' j) = uint (phys s (es ! nat j + 3))"
    using d by (simp add: p)
  moreover have "\<forall>j. j < 0 \<or> min K 32 \<le> j \<longrightarrow>
                cpu_id (processor_local_data s' j) = cpu_id (processor_local_data s j) \<and>
                lapic_id (processor_local_data s' j) = lapic_id (processor_local_data s j)"
    using d by (auto simp: load_processor_info_fields)
  moreover have "\<exists>xs. klog s' = klog s @ xs \<and>
                 (Printf ''smp: too many cores\<newline>'' \<in> set xs \<longleftrightarrow> 32 < K)"
    using l by (auto simp: p)
  ultimately show ?thesis using r c run by auto
qed

theorem madt_descriptors_witness:
  "(\<exists>out s'. smp_initialize example_env (initial_state example_memory) = Some (out, s') \<and>
     processor_count s' = 2 \<and>
     cpu_id (processor_local_data s' 0) = 0 \<and> lapic_id (processor_local_data s' 0) = 0 \<and>
     cpu_id (processor_local_data s' 1) = 1 \<and> lapic_id (processor_local_data s' 1) = 2 \<and>
     cpu_id (processor_local_data s' 2) = 0 \<and> lapic_id (processor_local_data s' 2) = 0 \<and>
     Printf ''smp: too many cores\<newline>'' \<notin> set (klog s')) \<and>
   (\<exists>out s'. smp_initialize example_env (initial_state crowded_memory) = Some (out, s') \<and>
     processor_count s' = 32 \<and>
     cpu_id (processor_local_data s' 31) = 31 \<and> lapic_id (processor_local_data s' 31) = 31 \<and>
     cpu_id (processor_local_data s' 32) = 0 \<and> lapic_id (processor_local_data s' 32) = 0 \<and>
     Printf ''smp: too many cores\<newline>'' \<in> set (klog s'))"
proof (rule conjI)
  show "\<exists>out s'. smp_initialize example_env (initial_state example_memory) = Some (out, s') \<and>
     processor_count s' = 2 \<and>
     cpu_id (processor_local_data s' 0) = 0 \<and> lapic_id (processor_local_data s' 0) = 0 \<and>
     cpu_id (processor_local_data s' 1) = 1 \<and> lapic_id (processor_local_data s' 1) = 2 \<and>
     cpu_id (processor_local_data s' 2) = 0 \<and> lapic_id (processor_local_data s' 2) = 0 \<and>
     Printf ''smp: too many cores\<newline>'' \<notin> set (klog s')"
  proof -
    let ?s = "initial_state example_memory"
    have p: "phys ?s = example_memory" "klog ?s = []"
      "processor_local_data ?s 2 = initial_locals" by (simp_all add: initial_state_def)
    note std = std_envs(1)
    have found: "locate_rsdp example_env (phys ?s) = Some (0xE0000, True)"
      by (simp add: p example_locate[OF std])
    have gate: "rsdp_checksum example_env (phys ?s) (unat (0xE0000 :: u64)) = 0 \<or>
        args_present example_env ''noacpichecksum''"
      by (simp add: p example_checksum[OF std])
    have rsdt: "0xE0100 = unat (read32 (phys ?s) (unat (0xE0000 :: u64) + rsdp_rsdt_address example_env))"
      using example_rsdt_address[OF std] by (simp add: p)
    have es: "[0xE022C, 0xE0248] = enabled_lapics example_env (phys ?s) 0xE0100 0"
      by (simp add: p example_enabled_lapics(1)[OF std])
    have K: "(2 :: int) = int (length [0xE022C, 0xE0248 :: nat])" by simp
    have wf: "madt_lengths_positive example_env (phys ?s) 0xE0100 0"
      by (simp add: p example_enabled_lapics(2)[OF std])
    from madt_descriptors[OF found gate example_args(1) rsdt es K wf example_hardware(1,2)]
    obtain out s' xs where
      r: "smp_initialize example_env ?s = Some (out, s')" "processor_count s' = min 2 32"
      and d: "\<forall>j. 0 \<le> j \<and> j < min 2 32 \<longrightarrow>
                  cpu_id (processor_local_data s' j) = j \<and>
                  lapic_id (processor_local_data s' j) =
                    uint (phys ?s ([0xE022C, 0xE0248] ! nat j + 3))"
      and o: "\<forall>j. j < 0 \<or> min 2 32 \<le> j \<longrightarrow>
                  cpu_id (processor_local_data s' j) = cpu_id (processor_local_data ?s j) \<and>
                  lapic_id (processor_local_data s' j) = lapic_id (processor_local_data ?s j)"
      and l: "klog s' = klog ?s @ xs" "Printf ''smp: too many cores\<newline>'' \<in> set xs \<longleftrightarrow> (32 :: int) < 2"
      by blast
    from d[rule_format, of 0] d[rule_format, of 1] o[rule_format, of 2]
    have "cpu_id (processor_local_data s' 0) = 0 \<and> lapic_id (processor_local_data s' 0) = 0 \<and>
       cpu_id (processor_local_data s' 1) = 1 \<and> lapic_id (processor_local_data s' 1) = 2 \<and>
       cpu_id (processor_local_data s' 2) = 0 \<and> lapic_id (processor_local_data s' 2) = 0"
      by (simp add: p example_apic_ids[simplified] initial_locals_def)
    moreover have "Printf ''smp: too many cores\<newline>'' \<notin> set (klog s')" using l by (simp add: p)
    ultimately show ?thesis using r by auto
  qed
  show "\<exists>out s'. smp_initialize example_env (initial_state crowded_memory) = Some (out, s') \<and>
     processor_count s' = 32 \<and>
     cpu_id (processor_local_data s' 31) = 31 \<and> lapic_id (processor_local_data s' 31) = 31 \<and>
     cpu_id (processor_local_data s' 32) = 0 \<and> lapic_id (processor_local_data s' 32) = 0 \<and>
     Printf ''smp: too many cores\<newline>'' \<in> set (klog s')"
  proof -
    let ?s = "initial_state crowded_memory"
    let ?es = "map (\<lambda>j. 0xE022C + 8 * j) [0..<40] :: nat list"
    have p: "phys ?s = crowded_memory" "klog ?s = []"
      "processor_local_data ?s 32 = initial_locals" by (simp_all add: initial_state_def)
    note std = std_envs(1)
    have found: "locate_rsdp example_env (phys ?s) = Some (0xE0000, True)"
      by (simp add: p crowded_locate[OF std])
    have gate: "rsdp_checksum example_env (phys ?s) (unat (0xE0000 :: u64)) = 0 \<or>
        args_present example_env ''noacpichecksum''"
      by (simp add: p crowded_checksum[OF std])
    have rsdt: "0xE0100 = unat (read32 (phys ?s) (unat (0xE0000 :: u64) + rsdp_rsdt_address example_env))"
      using crowded_rsdt_address[OF std] by (simp add: p)
    have es: "?es = enabled_lapics example_env (phys ?s) 0xE0100 0"
      by (simp only: p crowded_enabled_lapics(1)[OF std])
    have K: "(40 :: int) = int (length ?es)" by simp
    have wf: "madt_lengths_positive example_env (phys ?s) 0xE0100 0"
      by (simp only: p crowded_enabled_lapics(2)[OF std])
    from madt_descriptors[OF found gate example_args(1) rsdt es K wf example_hardware(1,2)]
    obtain out s' xs where
      r: "smp_initialize example_env ?s = Some (out, s')" "processor_count s' = min 40 32"
      and d: "\<forall>j. 0 \<le> j \<and> j < min 40 32 \<longrightarrow>
                  cpu_id (processor_local_data s' j) = j \<and>
                  lapic_id (processor_local_data s' j) = uint (phys ?s (?es ! nat j + 3))"
      and o: "\<forall>j. j < 0 \<or> min 40 32 \<le> j \<longrightarrow>
                  cpu_id (processor_local_data s' j) = cpu_id (processor_local_data ?s j) \<and>
                  lapic_id (processor_local_data s' j) = lapic_id (processor_local_data ?s j)"
      and l: "klog s' = klog ?s @ xs" "Printf ''smp: too many cores\<newline>'' \<in> set xs \<longleftrightarrow> (32 :: int) < 40"
      by blast
    have n: "?es ! nat 31 = 0xE022C + 8 * 31" by (simp del: upt_Suc)
    have "crowded_memory (0xE022C + 8 * 31 + 3) = of_nat 31" by (rule crowded_entry) simp
    with d[rule_format, of 31] o[rule_format, of 32]
    have "cpu_id (processor_local_data s' 31) = 31 \<and> lapic_id (processor_local_data s' 31) = 31 \<and>
       cpu_id (processor_local_data s' 32) = 0 \<and> lapic_id (processor_local_data s' 32) = 0"
      by (simp add: p n initial_locals_def del: upt_Suc)
    moreover have "Printf ''smp: too many cores\<newline>'' \<in> set (klog s')" using l by (simp add: p)
    ultimately show ?thesis using r by auto
  qed
qed

lemma madt_walk_zero_length_enabled_log:
  assumes "entry < limit" "mem (entry + 1) = 0" "lapic_enabled_at mem entry" "cores \<le> 32"
  shows "\<exists>s'. madt_walk mem limit entry s cores = Some (s', 32, True) \<and>
              klog s' = klog s @ [Printf ''smp: too many cores\<newline>'']"
  using assms(4)
proof (induction "nat (32 - cores)" arbitrary: s cores)
  case 0
  then have "cores = 32" by simp
  then show ?case using assms(1,3) by (subst madt_walk.simps) (simp add: printf_def)
next
  case (Suc n)
  then have ne: "cores \<noteq> 32" and le: "cores + 1 \<le> 32" and n: "n = nat (32 - (cores + 1))" by auto
  have nx: "madt_next mem entry = entry" using assms(2) by (simp add: madt_next_def)
  from Suc.hyps(1)[OF n le, of "record_core cores (mem (entry + 3)) s"]
  show ?case using assms(1,3) ne
    by (subst madt_walk.simps) (simp add: nx record_core_fields)
qed

lemmas zero_length_bytes = zero_length_memory_def place_def example_rsdp_def
  example_rsdt_def zero_length_madt_def zero_memory_def byte_of_def

lemma zero_length_entries:
  "madt_entry_list zero_length_memory 0xE0234 0xE022C = [0xE022C]"
  by (subst madt_entry_list.simps) (simp add: zero_length_bytes)

lemma zero_length_entry:
  "zero_length_memory (0xE022C + 1) = 0" "lapic_enabled_at zero_length_memory 0xE022C"
  by (simp_all add: lapic_enabled_at_def zero_length_bytes)

lemma zero_length_locate:
  "locate_rsdp example_env zero_length_memory = Some (0xE0000, True)"
  unfolding locate_rsdp_def select_legacy fst_conv snd_conv
  by (subst rsdp_scan.simps) (simp add: rsd_ptr_at_def zero_length_bytes)

lemma zero_length_checksum:
  "rsdp_checksum example_env zero_length_memory 0xE0000 = 0"
  by (simp add: rsdp_checksum_def example_env_def upt_0_20 zero_length_bytes)

lemma zero_length_rsdt_address:
  "unat (read32 zero_length_memory (0xE0000 + rsdp_rsdt_address example_env)) = 0xE0100"
  by (simp add: read32_def example_env_def zero_length_bytes)

lemma zero_length_layout:
  "rsdt_count example_env zero_length_memory 0xE0100 = 1"
  "rsdt_pointer example_env zero_length_memory 0xE0100 0 = 0xE0200"
  "apic_at zero_length_memory 0xE0200"
  "madt_top example_env zero_length_memory 0xE0200 = 0xE0234"
  "madt_entries example_env = 44"
  "ucast (read32 zero_length_memory (0xE0200 + madt_lapic_addr example_env)) = (0xFEE00000 :: u64)"
  by (simp_all add: rsdt_count_def rsdt_pointer_def apic_at_def madt_top_def read32_def
      example_env_def zero_length_bytes)

lemma zero_length_enabled_lapics:
  "enabled_lapics example_env zero_length_memory 0xE0100 0 = [0xE022C]"
proof -
  have tabs: "rsdt_apic_tables example_env zero_length_memory 0xE0100 0 = [0xE0200]"
    by (simp add: rsdt_apic_tables_def zero_length_layout upt_rec)
  have eq: "(0xE0200 :: nat) + 44 = 0xE022C" by simp
  have "filter (lapic_enabled_at zero_length_memory) [0xE022C] = [0xE022C]"
    by (simp add: zero_length_entry)
  then have "madt_enabled_lapics example_env zero_length_memory 0xE0200 = [0xE022C]"
    by (simp only: madt_enabled_lapics_def zero_length_layout(4,5) eq zero_length_entries)
  then show ?thesis by (simp add: enabled_lapics_def tabs)
qed

lemma zero_length_tables:
  "\<exists>s'. rsdt_walk example_env zero_length_memory 0xE0100 0 s 0 0 = Some (s', 32, 0xFEE00000) \<and>
        klog s' = klog s @ [Printf ''smp: too many cores\<newline>'']"
proof -
  have "(0 :: int) \<le> 32" by simp
  from madt_walk_zero_length_enabled_log[of "0xE022C" "0xE0234" zero_length_memory 0 s, OF _ _ _ this]
  obtain s' where mw: "madt_walk zero_length_memory 0xE0234 0xE022C s 0 = Some (s', 32, True)"
    and l: "klog s' = klog s @ [Printf ''smp: too many cores\<newline>'']"
    using zero_length_entry by auto
  have "rsdt_walk example_env zero_length_memory 0xE0100 0 s 0 0 = Some (s', 32, 0xFEE00000)"
    by (subst rsdt_walk.simps) (simp add: zero_length_layout mw)
  with l show ?thesis by blast
qed

text \<open>
  C1 as the specification words it, for every MADT, fails on a malformed one. A single
  enabled processor entry with length byte 0 (so \<open>K = 1\<close>) is counted again and again:
  \<open>processor_count\<close> is 32 and the "too many cores" line is logged.
\<close>

theorem madt_descriptors_counterexample:
  "locate_rsdp example_env zero_length_memory = Some (0xE0000, True) \<and>
   rsdp_checksum example_env zero_length_memory 0xE0000 = 0 \<and>
   unat (read32 zero_length_memory (0xE0000 + rsdp_rsdt_address example_env)) = 0xE0100 \<and>
   length (enabled_lapics example_env zero_length_memory 0xE0100 0) = 1 \<and>
   map_option (processor_count \<circ> snd)
     (smp_initialize example_env (initial_state zero_length_memory)) = Some 32 \<and>
   Printf ''smp: too many cores\<newline>'' \<in>
     set (case_option [] (klog \<circ> snd)
            (smp_initialize example_env (initial_state zero_length_memory)))"
proof -
  let ?s0 = "initial_state zero_length_memory"
  let ?s1 = "load_processor_info example_env 0 ?s0"
  have p: "phys ?s0 = zero_length_memory" by (simp add: initial_state_def)
  have p1: "phys ?s1 = zero_length_memory" by (simp add: load_processor_info_globals p)
  from zero_length_tables[of ?s1] obtain s2 where
    w: "rsdt_walk example_env zero_length_memory 0xE0100 0 ?s1 0 0 = Some (s2, 32, 0xFEE00000)"
    and l2: "klog s2 = klog ?s1 @ [Printf ''smp: too many cores\<newline>'']" by blast
  let ?s3 = "(emit (MapMmioRegion 0xFEE00000 0x1000) (s2\<lparr>processor_count := 32\<rparr>))\<lparr>lapic_final :=
                 mmu_map_mmio_region example_env 0xFEE00000 0x1000\<rparr>"
  from smp_bringup_returns[OF example_hardware(1,2), of 32 ?s3]
  obtain s' where b: "smp_bringup example_env 32 ?s3 = Some s'" by blast
  from smp_bringup_keeps[OF b] obtain xs where
    c: "processor_count s' = 32" and l: "klog s' = klog ?s3 @ xs"
    by (auto simp: emit_def)
  have "klog ?s3 = klog s2" by (simp add: emit_def)
  with l l2 have log: "Printf ''smp: too many cores\<newline>'' \<in> set (klog s')" by simp
  have "smp_parse_and_start example_env 0xE0000 ?s1 = Some (Enabled, s')"
    unfolding smp_parse_and_start_def p1 zero_length_rsdt_address w
    by (simp add: b)
  then have run: "smp_initialize example_env ?s0 = Some (Enabled, s')"
    unfolding smp_initialize_def p zero_length_locate
    by (simp add: p1 zero_length_checksum example_args)
  show ?thesis
    by (simp add: zero_length_locate zero_length_checksum zero_length_rsdt_address
        zero_length_enabled_lapics run c log)
qed

lemma smp_parse_and_start_outcome:
  assumes "smp_parse_and_start e rsdp s = Some (out, s')"
  shows "out = NoLapicBase \<or> out = OneCore \<or> out = Enabled"
  using assms
  by (auto simp: smp_parse_and_start_def Let_def split: option.splits if_splits)

lemma bad_boot_with_override:
  "\<exists>s'. smp_parse_and_start noacpichecksum_env 0xE0000
            (load_processor_info noacpichecksum_env 0 (initial_state bad_checksum_memory))
          = Some (Enabled, s') \<and> processor_count s' = 2"
proof -
  let ?e = noacpichecksum_env
  let ?s1 = "load_processor_info ?e 0 (initial_state bad_checksum_memory)"
  have p1: "phys ?s1 = bad_checksum_memory"
    by (simp add: load_processor_info_globals initial_state_def)
  let ?s3 = "(emit (MapMmioRegion 0xFEE00000 0x1000)
               ((record_core 1 2 (record_core 0 0 ?s1))\<lparr>processor_count := 2\<rparr>))\<lparr>lapic_final :=
                 mmu_map_mmio_region ?e 0xFEE00000 0x1000\<rparr>"
  from smp_bringup_returns[OF example_hardware(3,4), of 2 ?s3]
  obtain s' where b: "smp_bringup ?e 2 ?s3 = Some s'" by blast
  from smp_bringup_keeps[OF b] have "processor_count s' = 2" by (simp add: emit_def)
  moreover have "smp_parse_and_start ?e 0xE0000 ?s1 = Some (Enabled, s')"
    unfolding smp_parse_and_start_def p1 bad_rsdt_address[OF std_envs(3)]
      bad_tables[OF std_envs(3)]
    by (simp add: b)
  ultimately show ?thesis by blast
qed

lemma zero_memory_locate:
  assumes "standard_platform e"
  shows "locate_rsdp e zero_memory = Some (0x100000, False)"
proof -
  have sel: "select_scan e = (0xE0000, 0x100000)" using assms by (rule std_select)
  have "\<forall>k. unat (0xE0000 :: u64) + 16 * k < unat (0x100000 :: u64) \<longrightarrow>
       \<not> rsd_ptr_at zero_memory (unat (0xE0000 :: u64) + 16 * k)"
    by (simp add: rsd_ptr_at_def zero_memory_def byte_of_def)
  from rsdp_scan_miss[of "0x100000" "0xE0000" zero_memory, OF _ this]
  show ?thesis by (simp add: locate_rsdp_def sel)
qed

text \<open>
  C7. For an RSDP that the locator has found and whose bytes do not sum to 0 modulo 256:
  without \<^verbatim>\<open>noacpichecksum\<close>, \<^verbatim>\<open>smp_initialize\<close> logs the bad-checksum line and returns
  with \<open>processor_count\<close> and \<open>lapic_final\<close> as they were and nothing done to the
  hardware; with \<^verbatim>\<open>noacpichecksum\<close> it goes on exactly as for a valid checksum, to the
  \<^verbatim>\<open>nosmp\<close> test and from there to the RSDT and MADT, and never returns through the
  bad-checksum or the not-found exit.
\<close>

theorem rsdp_checksum_gate:
  assumes found: "locate_rsdp e (phys s) = Some (scan, True)"
  shows "(rsdp_checksum e (phys s) (unat scan) \<noteq> 0 \<and> \<not> args_present e ''noacpichecksum'' \<longrightarrow>
           (\<exists>s'. smp_initialize e s = Some (BadChecksum, s') \<and>
                 klog s' = klog s @
                   [Printf ''smp: Bad checksum on RSDP (add 'noacpichecksum' to ignore this)\<newline>''] \<and>
                 processor_count s' = processor_count s \<and> lapic_final s' = lapic_final s \<and>
                 trace s' = trace s)) \<and>
         (rsdp_checksum e (phys s) (unat scan) \<noteq> 0 \<and> args_present e ''noacpichecksum'' \<longrightarrow>
           smp_initialize e s =
             (if args_present e ''nosmp'' then Some (NoSmp, load_processor_info e 0 s)
              else smp_parse_and_start e (unat scan) (load_processor_info e 0 s)) \<and>
           (\<forall>out s'. smp_initialize e s = Some (out, s') \<longrightarrow>
              out \<noteq> BadChecksum \<and> out \<noteq> NoRsdPtr))"
proof (intro conjI impI)
  assume "rsdp_checksum e (phys s) (unat scan) \<noteq> 0 \<and> \<not> args_present e ''noacpichecksum''"
  then have "smp_initialize e s = Some (BadChecksum,
      printf ''smp: Bad checksum on RSDP (add 'noacpichecksum' to ignore this)\<newline>''
        (load_processor_info e 0 s))"
    using found by (simp add: smp_initialize_def Let_def load_processor_info_globals)
  then show "\<exists>s'. smp_initialize e s = Some (BadChecksum, s') \<and>
                 klog s' = klog s @
                   [Printf ''smp: Bad checksum on RSDP (add 'noacpichecksum' to ignore this)\<newline>''] \<and>
                 processor_count s' = processor_count s \<and> lapic_final s' = lapic_final s \<and>
                 trace s' = trace s"
    by (simp add: printf_def load_processor_info_globals)
next
  assume h: "rsdp_checksum e (phys s) (unat scan) \<noteq> 0 \<and> args_present e ''noacpichecksum''"
  then show eq: "smp_initialize e s =
             (if args_present e ''nosmp'' then Some (NoSmp, load_processor_info e 0 s)
              else smp_parse_and_start e (unat scan) (load_processor_info e 0 s))"
    using smp_initialize_accepts[OF found] by blast
  show "\<forall>out s'. smp_initialize e s = Some (out, s') \<longrightarrow> out \<noteq> BadChecksum \<and> out \<noteq> NoRsdPtr"
  proof (intro allI impI)
    fix out s' assume r: "smp_initialize e s = Some (out, s')"
    show "out \<noteq> BadChecksum \<and> out \<noteq> NoRsdPtr"
    proof (cases "args_present e ''nosmp''")
      case True
      with r eq show ?thesis by simp
    next
      case False
      with r eq have "smp_parse_and_start e (unat scan) (load_processor_info e 0 s) = Some (out, s')"
        by simp
      from smp_parse_and_start_outcome[OF this] show ?thesis by auto
    qed
  qed
qed

theorem rsdp_checksum_gate_witness:
  "(\<exists>s'. smp_initialize example_env (initial_state bad_checksum_memory) = Some (BadChecksum, s') \<and>
         klog s' = [Printf ''smp: Bad checksum on RSDP (add 'noacpichecksum' to ignore this)\<newline>''] \<and>
         processor_count s' = 1 \<and> lapic_final s' = 0) \<and>
   (\<exists>s'. smp_initialize noacpichecksum_env (initial_state bad_checksum_memory) = Some (Enabled, s') \<and>
         processor_count s' = 2)"
proof -
  let ?s = "initial_state bad_checksum_memory"
  have p: "phys ?s = bad_checksum_memory" "klog ?s = []" "processor_count ?s = 1"
    "lapic_final ?s = 0" by (simp_all add: initial_state_def)
  have f1: "locate_rsdp example_env (phys ?s) = Some (0xE0000, True)"
    by (simp add: p bad_locate[OF std_envs(1)])
  have f2: "locate_rsdp noacpichecksum_env (phys ?s) = Some (0xE0000, True)"
    by (simp add: p bad_locate[OF std_envs(3)])
  have c1: "rsdp_checksum example_env (phys ?s) (unat (0xE0000 :: u64)) \<noteq> 0"
    by (simp add: p bad_checksum[OF std_envs(1)])
  have c2: "rsdp_checksum noacpichecksum_env (phys ?s) (unat (0xE0000 :: u64)) \<noteq> 0"
    by (simp add: p bad_checksum[OF std_envs(3)])
  from rsdp_checksum_gate[OF f1] c1 example_args(2)
  have a: "\<exists>s'. smp_initialize example_env ?s = Some (BadChecksum, s') \<and>
         klog s' = [Printf ''smp: Bad checksum on RSDP (add 'noacpichecksum' to ignore this)\<newline>''] \<and>
         processor_count s' = 1 \<and> lapic_final s' = 0"
    by (auto simp: p)
  from rsdp_checksum_gate[OF f2] c2 example_args(5,6)
  have "smp_initialize noacpichecksum_env ?s =
      smp_parse_and_start noacpichecksum_env (unat (0xE0000 :: u64))
        (load_processor_info noacpichecksum_env 0 ?s)"
    by simp
  with bad_boot_with_override
  have b: "\<exists>s'. smp_initialize noacpichecksum_env ?s = Some (Enabled, s') \<and> processor_count s' = 2"
    by simp
  from a b show ?thesis by blast
qed

text \<open>
  C4. With \<^verbatim>\<open>nosmp\<close> on the command line, \<^verbatim>\<open>smp_initialize\<close> always returns, and
  \<open>processor_count\<close>, \<open>lapic_final\<close>, the memory and the trace are as they were (at boot:
  1 and 0), whatever the tables hold. When it returns through the \<^verbatim>\<open>nosmp\<close> exit it has
  logged nothing. That exit is taken exactly when the RSDP is found and accepted: the test
  of \<^verbatim>\<open>nosmp\<close> comes after the search for the RSDP and after the checksum, and a missing
  or rejected RSDP is still reported through the exit before it.
\<close>

theorem nosmp_opt_out:
  assumes "args_present e ''nosmp''"
  shows "\<exists>out s'. smp_initialize e s = Some (out, s') \<and>
           processor_count s' = processor_count s \<and> lapic_final s' = lapic_final s \<and>
           trace s' = trace s \<and> phys s' = phys s \<and>
           (out = NoSmp \<or> out = NoRsdPtr \<or> out = BadChecksum) \<and>
           klog s' = klog s @
             (if out = NoRsdPtr then [Printf ''smp: No RSD PTR found\<newline>'']
              else if out = BadChecksum
                then [Printf ''smp: Bad checksum on RSDP (add 'noacpichecksum' to ignore this)\<newline>'']
              else []) \<and>
           (out = NoSmp \<longleftrightarrow>
              (\<exists>scan. locate_rsdp e (phys s) = Some (scan, True) \<and>
                 (rsdp_checksum e (phys s) (unat scan) = 0 \<or> args_present e ''noacpichecksum'')))"
proof -
  from locate_rsdp_returns[of e "phys s"] obtain scan good where
    l: "locate_rsdp e (phys s) = Some (scan, good)" by (metis surj_pair)
  show ?thesis
    using l assms
    by (auto simp: smp_initialize_def Let_def load_processor_info_globals printf_def)
qed

theorem nosmp_opt_out_witness:
  "\<exists>s'. smp_initialize nosmp_env (initial_state example_memory) = Some (NoSmp, s') \<and>
        processor_count s' = 1 \<and> lapic_final s' = 0 \<and> klog s' = []"
proof -
  let ?s = "initial_state example_memory"
  have p: "phys ?s = example_memory" "klog ?s = []" "processor_count ?s = 1"
    "lapic_final ?s = 0" by (simp_all add: initial_state_def)
  have "\<exists>scan. locate_rsdp nosmp_env (phys ?s) = Some (scan, True) \<and>
      (rsdp_checksum nosmp_env (phys ?s) (unat scan) = 0 \<or> args_present nosmp_env ''noacpichecksum'')"
    by (rule exI[of _ "0xE0000"])
       (simp add: p example_locate[OF std_envs(2)] example_checksum[OF std_envs(2)])
  with nosmp_opt_out[OF example_args(3), of ?s] show ?thesis
    by (auto simp: p)
qed

text \<open>
  The order of the tests, on an example: with \<^verbatim>\<open>nosmp\<close> and no RSDP in the scan window,
  the not-found line is logged.
\<close>

lemma nosmp_tested_after_rsdp:
  "args_present nosmp_env ''nosmp'' \<and>
   map_option (klog \<circ> snd) (smp_initialize nosmp_env (initial_state zero_memory)) =
     Some [Printf ''smp: No RSD PTR found\<newline>'']"
  by (simp add: example_args smp_initialize_def zero_memory_locate[OF std_envs(2)] Let_def
      initial_state_def printf_def load_processor_info_globals)

end
